theory Spec2Isabelle
  imports Complex_Main "HOL-Library.AList"
begin

section \<open>Strings\<close>

text \<open>
  Python \<open>str\<close> values are modelled as \<open>string\<close>. A \<open>char\<close> is a code point below
  256 (ASCII and the Latin-1 supplement); text with other code points is outside the model.
  \<open>str.lower\<close>, \<open>str.strip\<close> and the classes \<open>\d\<close> and \<open>\s\<close> of regular expressions
  are given on these code points as Python gives them.
\<close>

definition code :: "char \<Rightarrow> nat" where
  "code c = of_char c"

definition is_upper :: "char \<Rightarrow> bool" where
  "is_upper c = (65 \<le> code c \<and> code c \<le> 90)"

definition is_lower :: "char \<Rightarrow> bool" where
  "is_lower c = (97 \<le> code c \<and> code c \<le> 122)"

definition is_digit :: "char \<Rightarrow> bool" where
  "is_digit c = (48 \<le> code c \<and> code c \<le> 57)"

definition is_space :: "char \<Rightarrow> bool" where
  \<comment> \<open>\<open>str.isspace\<close>: tab, LF, VT, FF, CR, FS, GS, RS, US, the blank, NEL (U+0085)
      and the no-break space (U+00A0)\<close>
  "is_space c = ((9 \<le> code c \<and> code c \<le> 13) \<or> (28 \<le> code c \<and> code c \<le> 32) \<or>
                 code c = 133 \<or> code c = 160)"

definition lower_char :: "char \<Rightarrow> char" where
  \<comment> \<open>the capital letters are A to Z and U+00C0 to U+00DE but the multiplication
      sign U+00D7\<close>
  "lower_char c =
     (if is_upper c \<or> (192 \<le> code c \<and> code c \<le> 222 \<and> code c \<noteq> 215)
      then char_of (code c + 32) else c)"

definition upper_char :: "char \<Rightarrow> char" where
  \<comment> \<open>the small letters with a capital below 256 are a to z and U+00E0 to U+00FE but
      the division sign U+00F7; the capitals of U+00B5, U+00DF and U+00FF lie outside, and
      none of them is in a range of the patterns\<close>
  "upper_char c =
     (if is_lower c \<or> (224 \<le> code c \<and> code c \<le> 254 \<and> code c \<noteq> 247)
      then char_of (code c - 32) else c)"

definition lower :: "string \<Rightarrow> string" where
  \<comment> \<open>\<open>str.lower()\<close>\<close>
  "lower s = map lower_char s"

definition lstrip :: "string \<Rightarrow> string" where
  "lstrip s = dropWhile is_space s"

definition strip :: "string \<Rightarrow> string" where
  \<comment> \<open>\<open>str.strip()\<close>\<close>
  "strip s = rev (lstrip (rev (lstrip s)))"

fun starts_with :: "string \<Rightarrow> string \<Rightarrow> bool" where
  "starts_with s [] = True"
| "starts_with [] (k # ks) = False"
| "starts_with (c # cs) (k # ks) = (c = k \<and> starts_with cs ks)"

fun contains :: "string \<Rightarrow> string \<Rightarrow> bool" where
  \<comment> \<open>\<open>k in s\<close> for strings\<close>
  "contains [] k = (k = [])"
| "contains (c # cs) k = (starts_with (c # cs) k \<or> contains cs k)"

function split_from :: "string \<Rightarrow> string \<Rightarrow> string \<Rightarrow> string list" where
  "split_from sep cur [] = [cur]"
| "split_from sep cur (c # cs) =
     (if sep \<noteq> [] \<and> starts_with (c # cs) sep
      then cur # split_from sep [] (drop (length sep) (c # cs))
      else split_from sep (cur @ [c]) cs)"
  by pat_completeness auto
termination
  by (relation "measure (\<lambda>(sep, cur, s). length s)") auto

definition py_split :: "string \<Rightarrow> string \<Rightarrow> string list" where
  \<comment> \<open>\<open>s.split(sep)\<close> for a non-empty separator\<close>
  "py_split s sep = split_from sep [] s"

fun py_join :: "string \<Rightarrow> string list \<Rightarrow> string" where
  \<comment> \<open>\<open>sep.join(parts)\<close>\<close>
  "py_join sep [] = []"
| "py_join sep [p] = p"
| "py_join sep (p # q # ps) = p @ sep @ py_join sep (q # ps)"

definition py_replace :: "string \<Rightarrow> string \<Rightarrow> string \<Rightarrow> string" where
  \<comment> \<open>\<open>s.replace(old, new)\<close> for a non-empty \<open>old\<close>: every occurrence, left to right\<close>
  "py_replace s old new = py_join new (py_split s old)"

definition any_in :: "string list \<Rightarrow> string \<Rightarrow> bool" where
  \<comment> \<open>\<open>any(keyword in text for keyword in keywords)\<close>\<close>
  "any_in keywords text = list_ex (\<lambda>keyword. contains text keyword) keywords"

section \<open>Content model\<close>

text \<open>
  The pydantic models of \<open>app/models/content.py\<close>. Fields that several models share
  (\<open>title\<close>, \<open>number\<close>, \<open>summary\<close>, \<open>metadata\<close>, \<open>s3_key\<close>) carry the model's name
  as a prefix, \<open>Concept.type\<close> is \<open>concept_type\<close>. A \<open>datetime\<close> is kept as its ISO
  string. Embedding components are floats on which the code never computes; they are
  real numbers here.
\<close>

datatype ContentType = EXPLANATION | EXAMPLE | FORMULA | EXERCISE | DEFINITION

fun type_value :: "ContentType \<Rightarrow> string" where
  "type_value EXPLANATION = ''explanation''"
| "type_value EXAMPLE = ''example''"
| "type_value FORMULA = ''formula''"
| "type_value EXERCISE = ''exercise''"
| "type_value DEFINITION = ''definition''"

datatype ProcessingStatus = PENDING | PROCESSING | COMPLETED | FAILED

type_synonym vec = "real list"

type_synonym datetime = string

record Concept =
  concept_id :: string
  name :: string
  content :: string
  concept_type :: ContentType
  embedding :: "vec option"
  metadata :: "(string \<times> string) list"

record Section =
  section_id :: string
  section_title :: string
  section_number :: "string option"
  concepts :: "Concept list"
  section_summary :: "string option"

record Chapter =
  chapter_id :: string
  chapter_number :: int
  chapter_title :: string
  sections :: "Section list"
  chapter_summary :: "string option"

record Book =
  book_id :: string
  title :: string
  subject :: string
  grade_level :: "string option"
  chapters :: "Chapter list"
  s3_key :: "string option"
  processed_at :: "datetime option"
  book_metadata :: "(string \<times> string) list"

record ProcessingJob =
  job_id :: string
  book_title :: string
  job_s3_key :: string
  status :: ProcessingStatus
  started_at :: "datetime option"
  completed_at :: "datetime option"
  error_message :: "string option"
  progress :: int
  total_pages :: "int option"
  processed_pages :: "int option"

definition all_concepts :: "Book \<Rightarrow> Concept list" where
  \<comment> \<open>the concepts of a book in document order: the nested \<open>for chapter\<close>, \<open>for section\<close>,
      \<open>for concept\<close> loops of the embedding, graph and vector stages\<close>
  "all_concepts book = concat (map (\<lambda>chapter. concat (map concepts (sections chapter))) (chapters book))"

subsection \<open>Concept classifier\<close>

definition example_markers :: "string list" where
  "example_markers = [''example:'', ''for instance'', ''e.g.'', ''such as'']"

definition formula_markers :: "string list" where
  "formula_markers = [''='', ''formula'', ''equation'']"

definition exercise_markers :: "string list" where
  "exercise_markers = [''exercise:'', ''problem:'', ''question:'']"

definition definition_markers :: "string list" where
  "definition_markers = [''definition:'', ''is defined as'', ''means that'']"

definition classify_content :: "string \<Rightarrow> ContentType" where
  "classify_content text =
     (let text_lower = lower text in
      if any_in example_markers text_lower then EXAMPLE
      else if any_in formula_markers text_lower then FORMULA
      else if any_in exercise_markers text_lower then EXERCISE
      else if any_in definition_markers text_lower then DEFINITION
      else EXPLANATION)"

section \<open>Regular expressions\<close>

text \<open>
  The heading patterns of \<open>PDFExtractor\<close> only use anchors, single characters,
  character classes, the greedy quantifier \<open>+\<close> on a class and unnested groups. A pattern
  is a list of tokens; \<open>rmatch\<close> is the backtracking matcher of \<open>re.match\<close> on that
  fragment, always with \<open>re.IGNORECASE\<close> as every call in the source passes it.
  The result is \<open>match.groups()\<close>.
\<close>

datatype atom =
    Lit char               \<comment> \<open>a literal character\<close>
  | Digit                  \<comment> \<open>\<open>\d\<close>\<close>
  | Space                  \<comment> \<open>\<open>\s\<close>\<close>
  | Dot                    \<comment> \<open>\<open>.\<close>: anything but a newline\<close>
  | Range char char        \<comment> \<open>\<open>[a-b]\<close>\<close>
  | OneOf "atom list"      \<comment> \<open>\<open>[...]\<close> with several members\<close>

datatype tok =
    Bol                    \<comment> \<open>\<open>^\<close>\<close>
  | Eol                    \<comment> \<open>\<open>$\<close>\<close>
  | Open                   \<comment> \<open>\<open>(\<close>\<close>
  | Close                  \<comment> \<open>\<open>)\<close>\<close>
  | One atom
  | Many atom              \<comment> \<open>\<open>atom+\<close>, greedy\<close>

definition newline :: char where
  "newline = CHR 0x0A"

definition in_range :: "char \<Rightarrow> char \<Rightarrow> char \<Rightarrow> bool" where
  "in_range a b x = (code a \<le> code x \<and> code x \<le> code b)"

fun accepts :: "atom \<Rightarrow> char \<Rightarrow> bool" where
  "accepts (Lit c) x = (lower_char x = lower_char c)"
| "accepts Digit x = is_digit x"
| "accepts Space x = is_space x"
| "accepts Dot x = (x \<noteq> newline)"
| "accepts (Range a b) x =
     (in_range a b x \<or> in_range a b (lower_char x) \<or> in_range a b (upper_char x))"
| "accepts (OneOf as) x = list_ex (\<lambda>a. accepts a x) as"

definition push :: "char \<Rightarrow> string option \<Rightarrow> string option" where
  \<comment> \<open>a consumed character joins the group that is open, if any\<close>
  "push c cur = map_option (\<lambda>g. g @ [c]) cur"

fun rmatch :: "tok list \<Rightarrow> nat \<Rightarrow> string \<Rightarrow> string list \<Rightarrow> string option \<Rightarrow> string list option" where
  "rmatch [] pos s gs cur = Some gs"
| "rmatch (Bol # ts) pos s gs cur = (if pos = 0 then rmatch ts pos s gs cur else None)"
| "rmatch (Eol # ts) pos s gs cur =
     (if s = [] \<or> s = [newline] then rmatch ts pos s gs cur else None)"
| "rmatch (Open # ts) pos s gs cur = rmatch ts pos s gs (Some [])"
| "rmatch (Close # ts) pos s gs cur =
     rmatch ts pos s (gs @ [case cur of Some g \<Rightarrow> g | None \<Rightarrow> []]) None"
| "rmatch (One a # ts) pos [] gs cur = None"
| "rmatch (One a # ts) pos (c # cs) gs cur =
     (if accepts a c then rmatch ts (Suc pos) cs gs (push c cur) else None)"
| "rmatch (Many a # ts) pos [] gs cur = None"
| "rmatch (Many a # ts) pos (c # cs) gs cur =
     (if accepts a c
      then (case rmatch (Many a # ts) (Suc pos) cs gs (push c cur) of
              Some r \<Rightarrow> Some r
            | None \<Rightarrow> rmatch ts (Suc pos) cs gs (push c cur))
      else None)"

definition re_match :: "tok list \<Rightarrow> string \<Rightarrow> string list option" where
  \<comment> \<open>\<open>re.match(pattern, line, re.IGNORECASE)\<close>; \<open>Some\<close> of the groups on a match\<close>
  "re_match pattern line = rmatch pattern 0 line [] None"

definition lits :: "string \<Rightarrow> tok list" where
  "lits s = map (\<lambda>c. One (Lit c)) s"

definition colon_or_space :: atom where
  \<comment> \<open>\<open>[:\s]\<close>\<close>
  "colon_or_space = OneOf [Lit CHR '':'', Space]"




definition dotted_number :: "tok list" where
  \<comment> \<open>\<open>(\d+\.\d+)\<close>\<close>
  "dotted_number = [Open, Many Digit, One (Lit CHR ''.''), Many Digit, Close]"

definition numeric_section_pattern :: "tok list" where
  \<comment> \<open>\<open>^(\d+\.\d+)\s+(.+)$\<close>\<close>
  "numeric_section_pattern =
     Bol # dotted_number @ [Many Space, Open, Many Dot, Close, Eol]"

definition keyword_section_pattern :: "tok list" where
  \<comment> \<open>\<open>^Section\s+(\d+\.\d+)[:\s]+(.+)$\<close>\<close>
  "keyword_section_pattern =
     Bol # lits ''Section'' @ [Many Space] @ dotted_number @
       [Many colon_or_space, Open, Many Dot, Close, Eol]"

definition letter_section_pattern :: "tok list" where
  \<comment> \<open>\<open>^[A-Z]\.\s+(.+)$\<close>\<close>
  "letter_section_pattern =
     [Bol, One (Range CHR ''A'' CHR ''Z''), One (Lit CHR ''.''), Many Space,
      Open, Many Dot, Close, Eol]"

definition section_patterns :: "tok list list" where
  "section_patterns =
     [numeric_section_pattern, keyword_section_pattern, letter_section_pattern]"

subsection \<open>Heading recognisers\<close>






fun match_section_in :: "tok list list \<Rightarrow> string \<Rightarrow> (string \<times> string) option" where
  "match_section_in [] line = None"
| "match_section_in (pattern # patterns) line =
     (case re_match pattern line of
        Some groups \<Rightarrow>
          (if length groups = 2 then Some (groups ! 0, strip (groups ! 1))
           else (case groups of
                   g1 # _ \<Rightarrow> Some (''A'', strip g1)
                 | [] \<Rightarrow> None))   \<comment> \<open>not reached: every section pattern has a group\<close>
      | None \<Rightarrow> match_section_in patterns line)"

definition match_section :: "string \<Rightarrow> (string \<times> string) option" where
  "match_section line = match_section_in section_patterns line"

section \<open>Exceptions\<close>

text \<open>
  A raised Python exception is a value: its class name and \<open>str(e)\<close>. A computation
  that may raise returns \<open>exn + 'a\<close>, with \<open>Inl\<close> for the exception.
\<close>

datatype exn = Raised (kind: string) (message: string)

definition IndexError :: exn where
  "IndexError = Raised ''IndexError'' ''list index out of range''"

definition ValueError_range :: exn where
  "ValueError_range = Raised ''ValueError'' ''range() arg 3 must not be zero''"

definition RetryError :: "exn \<Rightarrow> exn" where
  \<comment> \<open>what \<open>tenacity\<close> raises once the attempts are used up; it wraps the last failure\<close>
  "RetryError last_failure = Raised ''RetryError'' (kind last_failure)"

section \<open>Embedding Batcher\<close>

text \<open>
  \<open>EmbeddingGenerator\<close> talks to two collaborators that are not part of the repository:
  the embedding provider (\<open>client.embeddings.create\<close>) and the tokenizer
  (\<open>encoding.encode\<close>, \<open>encoding.decode\<close>). Both are fields of the generator here.
  The provider is an arbitrary stateful oracle: a call in provider state \<open>'s\<close> either
  raises or returns the embeddings of \<open>response.data\<close>, and moves to a new state, so a
  call may fail at one time and succeed at another. Waiting (\<open>asyncio.sleep\<close>, the
  backoff between attempts) and logging have no effect on the results and are left out.
\<close>

datatype embed_input = Single string | Batch "string list"

type_synonym 's provider = "'s \<Rightarrow> embed_input \<Rightarrow> (exn + vec list) \<times> 's"

record 's EmbeddingGenerator =
  create :: "'s provider"
  dimension :: int
  batch_size :: int
  encode :: "string \<Rightarrow> exn + nat list"
  decode :: "nat list \<Rightarrow> string"
  max_tokens :: nat

definition truncate_text :: "('s, 'x) EmbeddingGenerator_scheme \<Rightarrow> string \<Rightarrow> exn + string" where
  "truncate_text self text =
     (case encode self text of
        Inl e \<Rightarrow> Inl e
      | Inr tokens \<Rightarrow>
          if length tokens \<le> max_tokens self then Inr text
          else Inr (decode self (take (max_tokens self) tokens)))"

definition embedding_attempt ::
  "('s, 'x) EmbeddingGenerator_scheme \<Rightarrow> string \<Rightarrow> 's \<Rightarrow> (exn + vec) \<times> 's" where
  \<comment> \<open>the body of \<open>generate_embedding\<close>: one attempt\<close>
  "embedding_attempt self text s =
     (case truncate_text self text of
        Inl e \<Rightarrow> (Inl e, s)
      | Inr text' \<Rightarrow>
          (case create self s (Single text') of
             (Inl e, s') \<Rightarrow> (Inl e, s')
           | (Inr [], s') \<Rightarrow> (Inl IndexError, s')
           | (Inr (v # _), s') \<Rightarrow> (Inr v, s')))"

fun retry :: "nat \<Rightarrow> ('s \<Rightarrow> (exn + 'a) \<times> 's) \<Rightarrow> 's \<Rightarrow> (exn + 'a) \<times> 's" where
  \<comment> \<open>\<open>@retry\<close>: \<open>retry n f\<close> makes at most \<open>n + 1\<close> attempts and raises
      \<open>RetryError\<close> when the last one fails\<close>
  "retry 0 f s =
     (case f s of
        (Inl e, s') \<Rightarrow> (Inl (RetryError e), s')
      | (Inr v, s') \<Rightarrow> (Inr v, s'))"
| "retry (Suc n) f s =
     (case f s of
        (Inl e, s') \<Rightarrow> retry n f s'
      | (Inr v, s') \<Rightarrow> (Inr v, s'))"

definition generate_embedding ::
  "('s, 'x) EmbeddingGenerator_scheme \<Rightarrow> string \<Rightarrow> 's \<Rightarrow> (exn + vec) \<times> 's" where
  \<comment> \<open>\<open>stop_after_attempt(3)\<close>: three attempts in all\<close>
  "generate_embedding self text = retry 2 (embedding_attempt self text)"

definition zero_vector :: "('s, 'x) EmbeddingGenerator_scheme \<Rightarrow> vec" where
  \<comment> \<open>\<open>[0.0] * self.dimension\<close>\<close>
  "zero_vector self = replicate (nat (dimension self)) 0"

fun generate_individually ::
  "('s, 'x) EmbeddingGenerator_scheme \<Rightarrow> string list \<Rightarrow> 's \<Rightarrow> vec list \<times> 's" where
  \<comment> \<open>the fallback loop \<open>for text in batch\<close>\<close>
  "generate_individually self [] s = ([], s)"
| "generate_individually self (text # batch) s =
     (let (r, s') = generate_embedding self text s;
          embedding = (case r of Inr v \<Rightarrow> v | Inl _ \<Rightarrow> zero_vector self);
          (rest, s'') = generate_individually self batch s'
      in (embedding # rest, s''))"

fun truncate_all :: "('s, 'x) EmbeddingGenerator_scheme \<Rightarrow> string list \<Rightarrow> exn + string list" where
  \<comment> \<open>\<open>[self._truncate_text(text) for text in batch]\<close>, raising at the first failure\<close>
  "truncate_all self [] = Inr []"
| "truncate_all self (text # batch) =
     (case truncate_text self text of
        Inl e \<Rightarrow> Inl e
      | Inr text' \<Rightarrow>
          (case truncate_all self batch of
             Inl e \<Rightarrow> Inl e
           | Inr batch' \<Rightarrow> Inr (text' # batch')))"

definition embed_one_batch ::
  "('s, 'x) EmbeddingGenerator_scheme \<Rightarrow> string list \<Rightarrow> 's \<Rightarrow> vec list \<times> 's" where
  \<comment> \<open>the \<open>try\<close>/\<open>except\<close> of one loop iteration; \<open>batch\<close> is rebound to the truncated
      texts only when every truncation succeeded\<close>
  "embed_one_batch self batch s =
     (case truncate_all self batch of
        Inl e \<Rightarrow> generate_individually self batch s
      | Inr batch' \<Rightarrow>
          (case create self s (Batch batch') of
             (Inr batch_embeddings, s') \<Rightarrow> (batch_embeddings, s')
           | (Inl e, s') \<Rightarrow> generate_individually self batch' s'))"

function embed_from ::
  "('s, 'x) EmbeddingGenerator_scheme \<Rightarrow> string list \<Rightarrow> nat \<Rightarrow> vec list \<Rightarrow> 's \<Rightarrow> vec list \<times> 's" where
  \<comment> \<open>\<open>for i in range(i, len(texts), batch_size)\<close> for a positive \<open>batch_size\<close>\<close>
  "embed_from self texts i embeddings s =
     (if 0 < batch_size self \<and> i < length texts
      then (let batch = take (nat (batch_size self)) (drop i texts);
                (batch_embeddings, s') = embed_one_batch self batch s
            in embed_from self texts (i + nat (batch_size self)) (embeddings @ batch_embeddings) s')
      else (embeddings, s))"
  by pat_completeness auto
termination
  by (relation "measure (\<lambda>(self, texts, i, embeddings, s). length texts - i)") auto

definition generate_embeddings_batch ::
  "('s, 'x) EmbeddingGenerator_scheme \<Rightarrow> string list \<Rightarrow> 's \<Rightarrow> (exn + vec list) \<times> 's" where
  \<comment> \<open>\<open>range\<close> raises on a zero step and is empty on a negative one\<close>
  "generate_embeddings_batch self texts s =
     (if batch_size self = 0 then (Inl ValueError_range, s)
      else if batch_size self < 0 then (Inr [], s)
      else (case embed_from self texts 0 [] s of (embeddings, s') \<Rightarrow> (Inr embeddings, s')))"

subsection \<open>The provider contract and what a result vector may be\<close>

text \<open>
  The provider contract of the design: a call that succeeds returns one embedding per
  input, in input order, the embedding of a text being a function \<open>emb\<close> of the text.
  A result vector corresponds to a text when it is the embedding of the text as submitted
  (truncated once on the batch path, possibly again by \<open>generate_embedding\<close> on the
  fallback path) or the zero vector.
\<close>

fun inputs :: "embed_input \<Rightarrow> string list" where
  "inputs (Single text) = [text]"
| "inputs (Batch texts) = texts"

definition provider_embeds :: "'s provider \<Rightarrow> (string \<Rightarrow> vec) \<Rightarrow> bool" where
  "provider_embeds p emb =
     (\<forall>s inp data s'. p s inp = (Inr data, s') \<longrightarrow> data = map emb (inputs inp))"

definition always_fails :: "'s provider \<Rightarrow> bool" where
  "always_fails p = (\<forall>s inp. \<exists>e s'. p s inp = (Inl e, s'))"

definition corresponds ::
  "('s, 'x) EmbeddingGenerator_scheme \<Rightarrow> (string \<Rightarrow> vec) \<Rightarrow> string \<Rightarrow> vec \<Rightarrow> bool" where
  "corresponds self emb text v =
     (case truncate_text self text of
        Inl e \<Rightarrow> v = zero_vector self
      | Inr t1 \<Rightarrow>
          v = zero_vector self \<or> v = emb t1 \<or>
          (case truncate_text self t1 of Inl e \<Rightarrow> False | Inr t2 \<Rightarrow> v = emb t2))"

definition item_result ::
  "('s, 'x) EmbeddingGenerator_scheme \<Rightarrow> (string \<Rightarrow> vec) \<Rightarrow> string \<Rightarrow> vec \<Rightarrow> bool" where
  "item_result self emb text v =
     (v = zero_vector self \<or> (\<exists>t1. truncate_text self text = Inr t1 \<and> v = emb t1))"


definition fails_exactly_on ::
  "'s provider \<Rightarrow> (string \<Rightarrow> vec) \<Rightarrow> (embed_input \<Rightarrow> bool) \<Rightarrow> bool" where
  \<comment> \<open>a provider that keeps the contract and whose failures are decided by the input
      alone: it raises on the inputs of \<open>fails\<close>, whatever its state, and embeds the others\<close>
  "fails_exactly_on p emb fails =
     (\<forall>s inp. if fails inp then (\<exists>e s'. p s inp = (Inl e, s'))
              else (\<exists>s'. p s inp = (Inr (map emb (inputs inp)), s')))"

definition item_vector ::
  "('s, 'x) EmbeddingGenerator_scheme \<Rightarrow> (string \<Rightarrow> vec) \<Rightarrow> (embed_input \<Rightarrow> bool)
     \<Rightarrow> string \<Rightarrow> vec" where
  \<comment> \<open>what the fallback owes a text: its embedding when its own call succeeds, the zero
      vector when it fails\<close>
  "item_vector self emb fails text =
     (case truncate_text self text of
        Inl e \<Rightarrow> zero_vector self
      | Inr text' \<Rightarrow> if fails (Single text') then zero_vector self else emb text')"

definition expected_vector ::
  "('s, 'x) EmbeddingGenerator_scheme \<Rightarrow> (string \<Rightarrow> vec) \<Rightarrow> (embed_input \<Rightarrow> bool)
     \<Rightarrow> string list \<Rightarrow> string \<Rightarrow> vec" where
  \<comment> \<open>what the batcher owes a text of a batch: its embedding when the call for the batch
      succeeds, and what the fallback owes it otherwise\<close>
  "expected_vector self emb fails batch text =
     (case truncate_all self batch of
        Inl e \<Rightarrow> item_vector self emb fails text
      | Inr batch' \<Rightarrow>
          (case truncate_text self text of
             Inl e \<Rightarrow> zero_vector self
           | Inr text' \<Rightarrow>
               if fails (Batch batch') then item_vector self emb fails text' else emb text'))"

definition batch_of :: "nat \<Rightarrow> 'a list \<Rightarrow> nat \<Rightarrow> 'a list" where
  \<comment> \<open>the batch that holds index \<open>i\<close> when a list is cut into batches of \<open>n\<close>\<close>
  "batch_of n xs i = take n (drop (i div n * n) xs)"

text \<open>
  A sample generator for concrete runs: batches of two texts, a token per character with
  a budget of three tokens, and a provider that fails on every even-numbered call and
  otherwise embeds a text as its length.
\<close>

definition sample_emb :: "string \<Rightarrow> vec" where
  "sample_emb text = [real (length text)]"

definition failing_create :: "nat provider" where
  "failing_create calls inp = (Inl (Raised ''APIError'' ''unavailable''), Suc calls)"

definition sample_generator :: "nat provider \<Rightarrow> nat EmbeddingGenerator" where
  "sample_generator p =
     \<lparr>create = p, dimension = 2, batch_size = 2,
      encode = (\<lambda>text. Inr (map of_char text)), decode = map char_of, max_tokens = 3\<rparr>"


definition picky_create :: "nat provider" where
  \<comment> \<open>fails on every whole batch and on the single text \<open>bb\<close>\<close>
  "picky_create calls inp =
     (if (case inp of Batch b \<Rightarrow> True | Single t \<Rightarrow> t = ''bb'')
      then (Inl (Raised ''APIError'' ''rejected''), Suc calls)
      else (Inr (map sample_emb (inputs inp)), Suc calls))"

section \<open>Vector Indexer\<close>

text \<open>
  The vector index (\<open>self.index\<close>) is not part of the repository. \<open>VectorStore\<close> only calls
  its \<open>upsert\<close>, which is a parameter here: a call on a batch, in index state \<open>'i\<close>, raises
  or succeeds and leaves a new index state. \<open>now\<close> is the reading of \<open>datetime.utcnow()\<close>.
\<close>

datatype mval = MStr string | MInt int

record vector_data =
  vector_id :: string
  vector_values :: "vec option"
  vector_metadata :: "(string \<times> mval) list"

type_synonym 'i upsert = "'i \<Rightarrow> vector_data list \<Rightarrow> (exn + unit) \<times> 'i"

definition create_vector_data ::
  "Concept \<Rightarrow> Book \<Rightarrow> Chapter \<Rightarrow> Section \<Rightarrow> datetime \<Rightarrow> vector_data" where
  "create_vector_data concept book chapter section now =
     \<lparr>vector_id = concept_id concept,
      vector_values = embedding concept,
      vector_metadata =
        [(''concept_name'', MStr (take 100 (name concept))),
         (''concept_type'', MStr (type_value (concept_type concept))),
         (''content'', MStr (take 500 (content concept))),
         (''book_id'', MStr (book_id book)),
         (''book_title'', MStr (title book)),
         (''subject'', MStr (subject book)),
         (''chapter_id'', MStr (chapter_id chapter)),
         (''chapter_number'', MInt (chapter_number chapter)),
         (''chapter_title'', MStr (chapter_title chapter)),
         (''section_id'', MStr (section_id section)),
         (''section_title'', MStr (section_title section)),
         (''indexed_at'', MStr now)]\<rparr>"

definition has_embedding :: "Concept \<Rightarrow> bool" where
  \<comment> \<open>\<open>if concept.embedding:\<close> is Python truthiness: neither \<open>None\<close> nor the empty list\<close>
  "has_embedding concept = (case embedding concept of None \<Rightarrow> False | Some v \<Rightarrow> v \<noteq> [])"

definition collect_vectors :: "Book \<Rightarrow> datetime \<Rightarrow> vector_data list" where
  \<comment> \<open>the first loop nest of \<open>store_book_vectors\<close>\<close>
  "collect_vectors book now =
     concat (map (\<lambda>chapter.
       concat (map (\<lambda>section.
         map (\<lambda>concept. create_vector_data concept book chapter section now)
             (filter has_embedding (concepts section)))
       (sections chapter)))
     (chapters book))"

definition vector_batch_size :: nat where
  "vector_batch_size = 100"

function upsert_from ::
  "'i upsert \<Rightarrow> vector_data list \<Rightarrow> nat \<Rightarrow> nat \<Rightarrow> 'i \<Rightarrow> nat \<times> 'i" where
  \<comment> \<open>\<open>for i in range(i, len(vectors), self.batch_size)\<close>; a failed batch is logged and
      skipped\<close>
  "upsert_from upsert vectors i stored_count index =
     (if i < length vectors
      then (let batch = take vector_batch_size (drop i vectors)
            in case upsert index batch of
                 (Inr _, index') \<Rightarrow>
                   upsert_from upsert vectors (i + vector_batch_size)
                     (stored_count + length batch) index'
               | (Inl e, index') \<Rightarrow>
                   upsert_from upsert vectors (i + vector_batch_size) stored_count index')
      else (stored_count, index))"
  by pat_completeness auto
termination
  by (relation "measure (\<lambda>(upsert, vectors, i, stored_count, index). length vectors - i)")
    (auto simp: vector_batch_size_def)

definition store_book_vectors :: "'i upsert \<Rightarrow> Book \<Rightarrow> datetime \<Rightarrow> 'i \<Rightarrow> nat \<times> 'i" where
  "store_book_vectors upsert book now index =
     upsert_from upsert (collect_vectors book now) 0 0 index"

definition never_fails :: "'i upsert \<Rightarrow> bool" where
  "never_fails upsert = (\<forall>index batch. \<exists>index'. upsert index batch = (Inr (), index'))"

definition index_upsert :: "(string \<times> vector_data) list upsert" where
  \<comment> \<open>Modelled from the spec: the vector store itself is an external service. Its batch
      upsert stores each (id, vector, metadata) triple under its id, replacing a vector
      already stored under that id.\<close>
  "index_upsert index batch =
     (Inr (), foldl (\<lambda>stored v. AList.update (vector_id v) v stored) index batch)"

text \<open>A book of one chapter and one section, for concrete runs.\<close>

definition sample_concept :: "string \<Rightarrow> vec option \<Rightarrow> Concept" where
  "sample_concept cid e =
     \<lparr>concept_id = cid, name = ''Energy'', content = ''Energy is conserved.'',
      concept_type = EXPLANATION, embedding = e, metadata = []\<rparr>"

definition sample_book :: "Concept list \<Rightarrow> Book" where
  "sample_book cs =
     \<lparr>book_id = ''b1'', title = ''Physics'', subject = ''Science'', grade_level = None,
      chapters =
        [\<lparr>chapter_id = ''ch1'', chapter_number = 1, chapter_title = ''Mechanics'',
          sections =
            [\<lparr>section_id = ''s1'', section_title = ''Work'', section_number = Some ''1.1'',
              concepts = cs, section_summary = None\<rparr>],
          chapter_summary = None\<rparr>],
      s3_key = None, processed_at = None, book_metadata = []\<rparr>"

section \<open>Pipeline Orchestrator\<close>

text \<open>
  \<open>process_pdf_task\<close> runs the four stages in turn. What a stage does inside does not
  matter to the job record, only whether it returns or raises, so each stage is given by its
  outcome. The handler of the task is \<open>except Exception\<close>: it takes the exceptions derived
  from \<open>Exception\<close> and lets through the ones derived from \<open>BaseException\<close> only
  (\<open>asyncio.CancelledError\<close>, \<open>KeyboardInterrupt\<close>, \<open>SystemExit\<close>), so the outcome of
  a stage tells the two apart. The job is mutated in place; the pollers of
  \<open>get_job_status\<close> can see it whenever the task awaits a stage, so the run is the list of
  the job's states at those points, ending with the state the task leaves, together with the
  exception that leaves the task, if one does. \<open>started\<close> and \<open>finished\<close> are the two
  readings of \<open>datetime.utcnow()\<close>.
\<close>

datatype 'a outcome =
    Returned 'a
  | Raised_exception exn  \<comment> \<open>an exception derived from \<open>Exception\<close>\<close>
  | Raised_base exn  \<comment> \<open>one derived from \<open>BaseException\<close> and not from \<open>Exception\<close>\<close>

record pipeline =
  extract_stage :: "Book outcome"
  embed_stage :: "Book \<Rightarrow> Book outcome"
  graph_stage :: "Book \<Rightarrow> unit outcome"
  vector_stage :: "Book \<Rightarrow> nat outcome"

definition job_failed :: "exn \<Rightarrow> datetime \<Rightarrow> ProcessingJob \<Rightarrow> ProcessingJob" where
  \<comment> \<open>the \<open>except Exception as e\<close> handler; \<open>str(e)\<close> is the exception's message\<close>
  "job_failed e finished job =
     job\<lparr>status := FAILED, error_message := Some (message e), completed_at := Some finished\<rparr>"

definition process_pdf_states ::
  "pipeline \<Rightarrow> datetime \<Rightarrow> datetime \<Rightarrow> ProcessingJob \<Rightarrow> ProcessingJob list \<times> exn option" where
  "process_pdf_states p started finished job =
     (let j0 = job\<lparr>status := PROCESSING, started_at := Some started\<rparr> in
      case extract_stage p of
        Raised_exception e \<Rightarrow> ([j0, job_failed e finished j0], None)
      | Raised_base e \<Rightarrow> ([j0], Some e)
      | Returned book \<Rightarrow>
          let j1 = j0\<lparr>progress := 25\<rparr> in
          (case embed_stage p book of
             Raised_exception e \<Rightarrow> ([j0, j1, job_failed e finished j1], None)
           | Raised_base e \<Rightarrow> ([j0, j1], Some e)
           | Returned book' \<Rightarrow>
               let j2 = j1\<lparr>progress := 50\<rparr> in
               (case graph_stage p book' of
                  Raised_exception e \<Rightarrow> ([j0, j1, j2, job_failed e finished j2], None)
                | Raised_base e \<Rightarrow> ([j0, j1, j2], Some e)
                | Returned _ \<Rightarrow>
                    let j3 = j2\<lparr>progress := 75\<rparr> in
                    (case vector_stage p book' of
                       Raised_exception e \<Rightarrow> ([j0, j1, j2, j3, job_failed e finished j3], None)
                     | Raised_base e \<Rightarrow> ([j0, j1, j2, j3], Some e)
                     | Returned _ \<Rightarrow>
                         ([j0, j1, j2, j3,
                           j3\<lparr>progress := 100, status := COMPLETED,
                              completed_at := Some finished\<rparr>], None)))))"

definition process_pdf_task ::
  "(string \<rightharpoonup> ProcessingJob) \<Rightarrow> string \<Rightarrow> pipeline \<Rightarrow> datetime \<Rightarrow> datetime
     \<Rightarrow> (string \<rightharpoonup> ProcessingJob) \<times> exn option" where
  \<comment> \<open>\<open>processing_jobs\<close> after the task and the exception that leaves it, if one does; an
      unknown job id returns at once\<close>
  "process_pdf_task processing_jobs jid p started finished =
     (case processing_jobs jid of
        None \<Rightarrow> (processing_jobs, None)
      | Some job \<Rightarrow>
          (let (states, escaped) = process_pdf_states p started finished job
           in (processing_jobs(jid \<mapsto> last states), escaped)))"

definition terminal :: "ProcessingJob \<Rightarrow> bool" where
  "terminal job = (status job = COMPLETED \<or> status job = FAILED)"

fun never_resurrected :: "ProcessingJob list \<Rightarrow> bool" where
  \<comment> \<open>no state after a terminal one is \<open>processing\<close>\<close>
  "never_resurrected [] = True"
| "never_resurrected (job # later) =
     ((terminal job \<longrightarrow> list_all (\<lambda>j. status j \<noteq> PROCESSING) later) \<and> never_resurrected later)"

definition new_job :: "string \<Rightarrow> string \<Rightarrow> ProcessingJob" where
  \<comment> \<open>the job \<open>upload_pdf\<close> registers for the file name it accepted: the title is
      \<open>file.filename.replace('.pdf', '')\<close>, the key is \<open>pdfs/\<close>, the job id, \<open>/\<close> and
      the file name\<close>
  "new_job jid filename =
     \<lparr>job_id = jid, book_title = py_replace filename ''.pdf'' [],
      job_s3_key = ''pdfs/'' @ jid @ ''/'' @ filename,
      status = PENDING, started_at = None, completed_at = None, error_message = None,
      progress = 0, total_pages = None, processed_pages = None\<rparr>"

definition graph_failure :: "unit outcome \<Rightarrow> pipeline" where
  \<comment> \<open>a run whose extraction and embedding succeed and whose graph write ends as given\<close>
  "graph_failure raised =
     \<lparr>extract_stage = Returned (sample_book []), embed_stage = Returned,
      graph_stage = (\<lambda>book. raised), vector_stage = (\<lambda>book. Returned 0)\<rparr>"

definition timeout_error :: exn where
  \<comment> \<open>\<open>asyncio.TimeoutError\<close> derives from \<open>Exception\<close>; \<open>str(asyncio.TimeoutError())\<close> is
      the empty string\<close>
  "timeout_error = Raised ''TimeoutError'' []"

definition cancelled_error :: exn where
  \<comment> \<open>\<open>asyncio.CancelledError\<close> derives from \<open>BaseException\<close> only\<close>
  "cancelled_error = Raised ''CancelledError'' []"

definition three_concepts :: "Concept list" where
  \<comment> \<open>three concepts, the second without an embedding\<close>
  "three_concepts =
     [sample_concept ''c1'' (Some [1, 2]), sample_concept ''c2'' None,
      sample_concept ''c3'' (Some [3])]"

section \<open>Graph Builder\<close>

text \<open>
  The graph store is an external service; \<open>GraphManager\<close> sends it Cypher statements.
  A store state holds the nodes, each identified by its label and its \<open>id\<close> property and
  carrying its other properties, the directed typed edges between node identities, and
  the lookup indexes. The statements of the source have three shapes, and \<open>run\<close> gives
  each the meaning the design relies on (upsert by identity):
  \<^item> \<open>MERGE (n:L {id: x}) SET n.p = v, ...\<close>;
  \<^item> \<open>MATCH (a:L {id: x}) MERGE (n:M {id: y}) SET n.p = v, ... MERGE (a)-[:R]->(n)\<close>;
  \<^item> \<open>MATCH (a:L {id: x}) MATCH (b:M {id: y}) MERGE (a)-[:R]->(b)\<close>;
  and \<open>CREATE INDEX IF NOT EXISTS\<close>. A \<open>MATCH\<close> that finds no node makes its statement
  do nothing; \<open>MERGE\<close> creates what is missing and nothing else; \<open>SET\<close> with a
  null value removes the property. A store call that fails raises out of
  \<open>create_book_graph\<close>; the functions below describe the calls that succeed.

  The driver is the asynchronous one (\<open>AsyncGraphDatabase.driver\<close> in
  \<open>core/dependencies.py\<close>): its \<open>tx.run\<close> and \<open>session.run\<close> are coroutine functions,
  so a call makes a coroutine object and the statement is sent only when that object is
  awaited. \<open>_ensure_indexes\<close> awaits \<open>session.run\<close>. \<open>_create_book_node\<close>,
  \<open>_create_chapter_structure\<close> and \<open>_create_prerequisite_relation\<close> call \<open>tx.run\<close> as an
  expression statement, without \<open>await\<close>: the coroutine object is dropped and its
  statement never reaches the store. A session is therefore the store together with the
  statements of the dropped coroutines, kept for the record.
\<close>

datatype label = Book_label | Chapter_label | Section_label | Concept_label

datatype rel = HAS_CHAPTER | HAS_SECTION | HAS_CONCEPT | PREREQUISITE | RELATED_TO

datatype pval = PStr string | PInt int

type_synonym props = "(string \<times> pval) list"

type_synonym node_ref = "label \<times> string"

type_synonym edge = "node_ref \<times> rel \<times> node_ref"

record graph =
  nodes :: "(node_ref \<times> props) list"
  edges :: "edge list"
  indexes :: "(label \<times> string) list"

definition empty_graph :: graph where
  "empty_graph = \<lparr>nodes = [], edges = [], indexes = []\<rparr>"

datatype cypher =
    Merge_node node_ref "(string \<times> pval option) list"
  | Match_merge_child node_ref rel node_ref "(string \<times> pval option) list"
  | Match_merge_edge node_ref rel node_ref
  | Create_index label string

definition has_node :: "graph \<Rightarrow> node_ref \<Rightarrow> bool" where
  "has_node g n = (n \<in> fst ` set (nodes g))"

definition set_prop :: "string \<times> pval option \<Rightarrow> props \<Rightarrow> props" where
  "set_prop a ps = (case snd a of Some v \<Rightarrow> AList.update (fst a) v ps
                    | None \<Rightarrow> AList.delete (fst a) ps)"

definition merge_node :: "node_ref \<Rightarrow> (string \<times> pval option) list \<Rightarrow> graph \<Rightarrow> graph" where
  "merge_node n assignments g =
     (let found = (case map_of (nodes g) n of
                     Some ps \<Rightarrow> ps
                   | None \<Rightarrow> [(''id'', PStr (snd n))])
      in g\<lparr>nodes := AList.update n (fold set_prop assignments found) (nodes g)\<rparr>)"

definition merge_edge :: "edge \<Rightarrow> graph \<Rightarrow> graph" where
  "merge_edge e g = (if e \<in> set (edges g) then g else g\<lparr>edges := edges g @ [e]\<rparr>)"

fun run :: "graph \<Rightarrow> cypher \<Rightarrow> graph" where
  \<comment> \<open>Modelled from the spec: the graph store is an external service that supports
      upsert by identity for typed nodes and for typed directed edges between two node
      identities, and index creation; this is \<open>tx.run\<close> on the statements of the source.\<close>
  "run g (Merge_node n assignments) = merge_node n assignments g"
| "run g (Match_merge_child a r n assignments) =
     (if has_node g a then merge_edge (a, r, n) (merge_node n assignments g) else g)"
| "run g (Match_merge_edge a r b) =
     (if has_node g a \<and> has_node g b then merge_edge (a, r, b) g else g)"
| "run g (Create_index l p) =
     (if (l, p) \<in> set (indexes g) then g else g\<lparr>indexes := indexes g @ [(l, p)]\<rparr>)"

record session =
  store :: graph
  unsent :: "cypher list"

definition tx_run_dropped :: "session \<Rightarrow> cypher \<Rightarrow> session" where
  \<comment> \<open>\<open>tx.run(query, ...)\<close> without \<open>await\<close>: the statement is not sent\<close>
  "tx_run_dropped tx q = tx\<lparr>unsent := unsent tx @ [q]\<rparr>"

definition session_run :: "session \<Rightarrow> cypher \<Rightarrow> session" where
  \<comment> \<open>\<open>await session.run(query)\<close>\<close>
  "session_run session q = session\<lparr>store := run (store session) q\<rparr>"

definition create_book_node :: "session \<Rightarrow> Book \<Rightarrow> session" where
  "create_book_node tx book =
     tx_run_dropped tx (Merge_node (Book_label, book_id book)
       [(''title'', Some (PStr (title book))),
        (''subject'', Some (PStr (subject book))),
        (''grade_level'', map_option PStr (grade_level book)),
        (''processed_at'', map_option PStr (processed_at book))])"

definition concept_query :: "Section \<Rightarrow> Concept \<Rightarrow> cypher" where
  "concept_query section concept =
     Match_merge_child (Section_label, section_id section) HAS_CONCEPT
       (Concept_label, concept_id concept)
       [(''name'', Some (PStr (name concept))),
        (''type'', Some (PStr (type_value (concept_type concept)))),
        (''content'', Some (PStr (take 1000 (content concept))))]"

definition section_query :: "Chapter \<Rightarrow> Section \<Rightarrow> cypher" where
  "section_query chapter section =
     Match_merge_child (Chapter_label, chapter_id chapter) HAS_SECTION
       (Section_label, section_id section)
       [(''title'', Some (PStr (section_title section))),
        (''number'', map_option PStr (section_number section))]"

definition chapter_query :: "string \<Rightarrow> Chapter \<Rightarrow> cypher" where
  "chapter_query bid chapter =
     Match_merge_child (Book_label, bid) HAS_CHAPTER (Chapter_label, chapter_id chapter)
       [(''number'', Some (PInt (chapter_number chapter))),
        (''title'', Some (PStr (chapter_title chapter)))]"

definition create_chapter_structure :: "session \<Rightarrow> string \<Rightarrow> Chapter \<Rightarrow> session" where
  "create_chapter_structure tx bid chapter =
     foldl (\<lambda>tx section.
              foldl (\<lambda>tx concept. tx_run_dropped tx (concept_query section concept))
                    (tx_run_dropped tx (section_query chapter section))
                    (concepts section))
           (tx_run_dropped tx (chapter_query bid chapter))
           (sections chapter)"

definition prerequisite_query :: "string \<Rightarrow> string \<Rightarrow> cypher" where
  "prerequisite_query from_id to_id =
     Match_merge_edge (Concept_label, from_id) PREREQUISITE (Concept_label, to_id)"

definition create_prerequisite_relation :: "session \<Rightarrow> string \<Rightarrow> string \<Rightarrow> session" where
  "create_prerequisite_relation tx from_id to_id =
     tx_run_dropped tx (prerequisite_query from_id to_id)"

definition create_concept_relationships :: "session \<Rightarrow> Book \<Rightarrow> session" where
  \<comment> \<open>\<open>for i in range(len(concepts) - 1)\<close>; the range is empty for no concept\<close>
  "create_concept_relationships session book =
     (let cs = all_concepts book
      in foldl (\<lambda>session i.
                  create_prerequisite_relation session
                    (concept_id (cs ! i)) (concept_id (cs ! (i + 1))))
               session [0 ..< length cs - 1])"

definition index_statements :: "cypher list" where
  "index_statements =
     [Create_index Book_label ''id'', Create_index Chapter_label ''id'',
      Create_index Section_label ''id'', Create_index Concept_label ''id'',
      Create_index Concept_label ''name'']"

definition ensure_indexes :: "session \<Rightarrow> session" where
  "ensure_indexes session = foldl session_run session index_statements"

definition create_book_graph :: "graph \<Rightarrow> Book \<Rightarrow> session" where
  \<comment> \<open>one run on the store \<open>g\<close>, in a session of its own; the session it leaves\<close>
  "create_book_graph g book =
     (let session = \<lparr>store = g, unsent = []\<rparr>
      in ensure_indexes
           (create_concept_relationships
              (foldl (\<lambda>session chapter. create_chapter_structure session (book_id book) chapter)
                     (create_book_node session book)
                     (chapters book))
              book))"

definition prerequisite :: "graph \<Rightarrow> node_ref \<Rightarrow> node_ref \<Rightarrow> bool" where
  "prerequisite g a b = ((a, PREREQUISITE, b) \<in> set (edges g))"

definition is_prerequisite_statement :: "cypher \<Rightarrow> bool" where
  "is_prerequisite_statement q =
     (case q of Match_merge_edge a r b \<Rightarrow> r = PREREQUISITE | _ \<Rightarrow> False)"

section \<open>Structure Recognizer and Concept Segmenter\<close>


fun concepts_of_paragraphs ::
  "(nat \<Rightarrow> string) \<Rightarrow> nat \<Rightarrow> string list \<Rightarrow> Concept list \<times> nat" where
  \<comment> \<open>the loop \<open>for para in paragraphs\<close>\<close>
  "concepts_of_paragraphs uuid n [] = ([], n)"
| "concepts_of_paragraphs uuid n (para # paragraphs) =
     (if length para < 50 then concepts_of_paragraphs uuid n paragraphs
      else (let content_type = classify_content para;
                sentences = py_split para ''. '';
                concept = \<lparr>concept_id = uuid n,
                           name = take 100 (case sentences of [] \<Rightarrow> para | s # _ \<Rightarrow> s),
                           content = para, concept_type = content_type,
                           embedding = None, metadata = []\<rparr>;
                (rest, n') = concepts_of_paragraphs uuid (Suc n) paragraphs
            in (concept # rest, n')))"

definition extract_concepts :: "(nat \<Rightarrow> string) \<Rightarrow> nat \<Rightarrow> string \<Rightarrow> Concept list \<times> nat" where
  "extract_concepts uuid n body =
     concepts_of_paragraphs uuid n
       (map strip (filter (\<lambda>p. strip p \<noteq> []) (py_split body [newline, newline])))"


record structuring =
  building :: Book
  in_section :: bool
  accumulated_text :: "string list"
  drawn :: nat

definition map_last :: "('a \<Rightarrow> 'a) \<Rightarrow> 'a list \<Rightarrow> 'a list" where
  "map_last f xs = (if xs = [] then [] else butlast xs @ [f (last xs)])"

definition extend_current_section :: "Concept list \<Rightarrow> Book \<Rightarrow> Book" where
  \<comment> \<open>\<open>current_section.concepts.extend(concepts)\<close>\<close>
  "extend_current_section cs b =
     b\<lparr>chapters :=
         map_last (\<lambda>chapter.
           chapter\<lparr>sections :=
             map_last (\<lambda>section. section\<lparr>concepts := concepts section @ cs\<rparr>)
                      (sections chapter)\<rparr>)
         (chapters b)\<rparr>"

definition save_accumulated :: "(nat \<Rightarrow> string) \<Rightarrow> structuring \<Rightarrow> structuring" where
  \<comment> \<open>\<open>if current_section and accumulated_text:\<close> extract, extend, reset the buffer\<close>
  "save_accumulated uuid st =
     (if in_section st \<and> accumulated_text st \<noteq> []
      then (let (cs, n) = extract_concepts uuid (drawn st)
                            (py_join [newline] (accumulated_text st))
            in st\<lparr>building := extend_current_section cs (building st),
                  accumulated_text := [], drawn := n\<rparr>)
      else st)"
















section \<open>Graph Query Layer: the shortest learning path\<close>

text \<open>
  \<open>_find_shortest_path\<close> builds one \<open>shortestPath\<close> query over \<open>PREREQUISITE\<close> edges,
  from the concept with one identity to the concept with the other, and means to build the
  learning path from the single record of its result. It calls \<open>tx.run(...).single()\<close>:
  \<open>tx.run\<close> of the asynchronous driver is not awaited there, so \<open>.single()\<close> is looked up
  on a coroutine object, which has no such attribute. The query is never sent.
\<close>

record GraphNode =
  node_id :: string
  node_label :: string
  node_properties :: props

record LearningPath =
  from_concept :: string
  to_concept :: string
  path :: "GraphNode list"
  total_concepts :: int
  estimated_time :: "int option"

definition AttributeError :: "string \<Rightarrow> string \<Rightarrow> exn" where
  "AttributeError obj attribute =
     Raised ''AttributeError''
       ([CHR 0x27] @ obj @ [CHR 0x27] @ '' object has no attribute '' @
        [CHR 0x27] @ attribute @ [CHR 0x27])"

definition coroutine_single :: "exn + (node_ref \<times> props) list option" where
  \<comment> \<open>\<open>tx.run(query, from_id=from_id, to_id=to_id).single()\<close>: the attribute \<open>single\<close> of
      the coroutine object; the type is that of the record the source goes on to read\<close>
  "coroutine_single = Inl (AttributeError ''coroutine'' ''single'')"

definition find_shortest_path :: "graph \<Rightarrow> string \<Rightarrow> string \<Rightarrow> exn + LearningPath option" where
  \<comment> \<open>\<open>node["id"]\<close> is the identity of the node; the label is the constant the source
      writes\<close>
  "find_shortest_path tx from_id to_id =
     (case coroutine_single of
        Inl e \<Rightarrow> Inl e
      | Inr result \<Rightarrow>
          (case result of
             Some path_nodes_rec \<Rightarrow>
               (let path_nodes =
                      map (\<lambda>(n, ps). \<lparr>node_id = snd n, node_label = ''Concept'',
                                        node_properties = ps\<rparr>) path_nodes_rec
                in Inr (Some \<lparr>from_concept = from_id, to_concept = to_id, path = path_nodes,
                              total_concepts = int (length path_nodes),
                              estimated_time = Some (int (length path_nodes) * 15)\<rparr>))
           | None \<Rightarrow> Inr None))"

definition find_learning_path :: "graph \<Rightarrow> string \<Rightarrow> string \<Rightarrow> exn + LearningPath option" where
  \<comment> \<open>\<open>except Exception\<close> logs and raises again\<close>
  "find_learning_path g from_concept_id to_concept_id =
     (case find_shortest_path g from_concept_id to_concept_id of
        Inl e \<Rightarrow> Inl e
      | Inr result \<Rightarrow> Inr result)"

definition chain_graph :: graph where
  \<comment> \<open>a store that holds the chain \<open>c1 -> c2 -> c3\<close>\<close>
  "chain_graph =
     \<lparr>nodes = [((Concept_label, ''c1''), [(''id'', PStr ''c1'')]),
               ((Concept_label, ''c2''), [(''id'', PStr ''c2'')]),
               ((Concept_label, ''c3''), [(''id'', PStr ''c3'')])],
      edges = [((Concept_label, ''c1''), PREREQUISITE, (Concept_label, ''c2'')),
               ((Concept_label, ''c2''), PREREQUISITE, (Concept_label, ''c3''))],
      indexes = []\<rparr>"

section \<open>Embedding Batcher: length, order and fallback\<close>

declare embed_from.simps [simp del]

lemma provider_embedsD:
  "provider_embeds p emb \<Longrightarrow> p s inp = (Inr data, s') \<Longrightarrow> data = map emb (inputs inp)"
  unfolding provider_embeds_def by blast

lemma embedding_attempt_result:
  assumes "provider_embeds (create self) emb"
    and "embedding_attempt self text s = (Inr v, s')"
  shows "\<exists>t1. truncate_text self text = Inr t1 \<and> v = emb t1"
proof (cases "truncate_text self text")
  case (Inl e)
  with assms(2) show ?thesis by (simp add: embedding_attempt_def)
next
  case (Inr t1)
  obtain r s1 where c: "create self s (Single t1) = (r, s1)" by (cases "create self s (Single t1)")
  show ?thesis
  proof (cases r)
    case (Inl e)
    with Inr c assms(2) show ?thesis by (simp add: embedding_attempt_def)
  next
    case r: (Inr data)
    with c assms(1) have "data = [emb t1]" by (auto dest: provider_embedsD)
    with Inr c r assms(2) show ?thesis by (simp add: embedding_attempt_def)
  qed
qed

lemma retry_result:
  assumes "\<And>s v s'. f s = (Inr v, s') \<Longrightarrow> P v"
    and "retry n f s = (Inr v, s')"
  shows "P v"
  using assms(2)
proof (induction n arbitrary: s)
  case 0
  then show ?case using assms(1) by (auto split: prod.splits sum.splits)
next
  case (Suc n)
  then show ?case using assms(1) by (auto split: prod.splits sum.splits)
qed

lemma generate_embedding_result:
  assumes "provider_embeds (create self) emb"
    and "generate_embedding self text s = (Inr v, s')"
  shows "\<exists>t1. truncate_text self text = Inr t1 \<and> v = emb t1"
  using assms(2) unfolding generate_embedding_def
  by (rule retry_result[rotated]) (rule embedding_attempt_result[OF assms(1)])

lemma generate_individually_results:
  assumes "provider_embeds (create self) emb"
  shows "list_all2 (item_result self emb) batch (fst (generate_individually self batch s))"
proof (induction batch arbitrary: s)
  case Nil
  show ?case by simp
next
  case (Cons t batch)
  obtain r s1 where g: "generate_embedding self t s = (r, s1)"
    by (cases "generate_embedding self t s")
  have "item_result self emb t (case r of Inr v \<Rightarrow> v | Inl _ \<Rightarrow> zero_vector self)"
    using generate_embedding_result[OF assms] g
    by (cases r) (auto simp: item_result_def)
  with Cons[of s1] g show ?case
    by (auto split: prod.splits)
qed

lemma truncate_all_results:
  "truncate_all self batch = Inr batch' \<Longrightarrow>
   list_all2 (\<lambda>text text'. truncate_text self text = Inr text') batch batch'"
  by (induction batch arbitrary: batch') (auto split: sum.splits)

lemma item_result_corresponds:
  "item_result self emb text v \<Longrightarrow> corresponds self emb text v"
  by (auto simp: item_result_def corresponds_def split: sum.splits)

lemma item_result_truncated_corresponds:
  "truncate_text self text = Inr text' \<Longrightarrow> item_result self emb text' v \<Longrightarrow>
   corresponds self emb text v"
  by (auto simp: item_result_def corresponds_def split: sum.splits)

lemma embed_one_batch_results:
  assumes "provider_embeds (create self) emb"
  shows "list_all2 (corresponds self emb) batch (fst (embed_one_batch self batch s))"
proof (cases "truncate_all self batch")
  case (Inl e)
  have "list_all2 (item_result self emb) batch (fst (generate_individually self batch s))"
    by (rule generate_individually_results[OF assms])
  then have "list_all2 (corresponds self emb) batch (fst (generate_individually self batch s))"
    by (rule list_all2_mono) (rule item_result_corresponds)
  with Inl show ?thesis by (simp add: embed_one_batch_def)
next
  case (Inr batch')
  note tr = truncate_all_results[OF Inr]
  obtain r s1 where c: "create self s (Batch batch') = (r, s1)"
    by (cases "create self s (Batch batch')")
  show ?thesis
  proof (cases r)
    case (Inl e)
    have "list_all2 (item_result self emb) batch' (fst (generate_individually self batch' s1))"
      by (rule generate_individually_results[OF assms])
    with tr have "list_all2 (corresponds self emb) batch (fst (generate_individually self batch' s1))"
      by (auto simp: list_all2_conv_all_nth intro: item_result_truncated_corresponds)
    with Inr c Inl show ?thesis by (simp add: embed_one_batch_def)
  next
    case r: (Inr data)
    with c assms have "data = map emb batch'" by (auto dest: provider_embedsD)
    with tr have "list_all2 (corresponds self emb) batch data"
      by (auto simp: list_all2_conv_all_nth corresponds_def)
    with Inr c r show ?thesis by (simp add: embed_one_batch_def)
  qed
qed

lemma embed_from_results:
  "provider_embeds (create self) emb \<Longrightarrow> 0 < batch_size self \<Longrightarrow>
   list_all2 (corresponds self emb) (take i texts) embeddings \<Longrightarrow>
   list_all2 (corresponds self emb) texts (fst (embed_from self texts i embeddings s))"
proof (induction self texts i embeddings s rule: embed_from.induct)
  case (1 self texts i embeddings s)
  show ?case
  proof (cases "i < length texts")
    case False
    with "1.prems" show ?thesis by (simp add: embed_from.simps[of self texts i])
  next
    case True
    define batch where "batch = take (nat (batch_size self)) (drop i texts)"
    obtain vs s1 where b: "embed_one_batch self batch s = (vs, s1)"
      by (cases "embed_one_batch self batch s")
    have "list_all2 (corresponds self emb) batch vs"
      using embed_one_batch_results[OF "1.prems"(1), of batch s] b by simp
    with "1.prems"(3) have inv: "list_all2 (corresponds self emb)
        (take (i + nat (batch_size self)) texts) (embeddings @ vs)"
      by (simp add: take_add batch_def list_all2_appendI)
    have cond: "0 < batch_size self \<and> i < length texts"
      using True "1.prems"(2) by simp
    from "1.IH"[OF cond batch_def refl b[symmetric] "1.prems"(1,2) inv] cond b show ?thesis
      by (simp add: embed_from.simps[of self texts i] batch_def[symmetric])
  qed
qed


subsection \<open>Which vector each text gets\<close>

lemma fails_exactly_on_embeds:
  "fails_exactly_on p emb fails \<Longrightarrow> provider_embeds p emb"
  unfolding fails_exactly_on_def provider_embeds_def
  by (metis Pair_inject sum.inject(2) sum.simps(4))

lemma retry_first_success: "f s = (Inr v, s') \<Longrightarrow> retry n f s = (Inr v, s')"
  by (cases n) simp_all

lemma retry_always_failing:
  assumes "\<And>s. \<exists>e s'. f s = (Inl e, s')"
  shows "\<exists>e s'. retry n f s = (Inl e, s')"
proof (induction n arbitrary: s)
  case 0
  from assms[of s] show ?case by auto
next
  case (Suc n)
  from assms[of s] obtain e s1 where "f s = (Inl e, s1)" by blast
  with Suc[of s1] show ?case by simp
qed

lemma generate_embedding_item:
  assumes "fails_exactly_on (create self) emb fails"
  shows "\<exists>r s'. generate_embedding self t s = (r, s') \<and>
           (case r of Inr v \<Rightarrow> v | Inl _ \<Rightarrow> zero_vector self) = item_vector self emb fails t"
proof (cases "truncate_text self t")
  case (Inl e)
  have "\<exists>e s'. retry 2 (embedding_attempt self t) s = (Inl e, s')"
    by (rule retry_always_failing) (simp add: embedding_attempt_def Inl)
  with Inl show ?thesis by (auto simp: generate_embedding_def item_vector_def)
next
  case (Inr t')
  show ?thesis
  proof (cases "fails (Single t')")
    case True
    have "\<exists>e s'. embedding_attempt self t s0 = (Inl e, s')" for s0
    proof -
      from assms True obtain e s1 where "create self s0 (Single t') = (Inl e, s1)"
        unfolding fails_exactly_on_def by metis
      with Inr show ?thesis by (simp add: embedding_attempt_def)
    qed
    then have "\<exists>e s'. retry 2 (embedding_attempt self t) s = (Inl e, s')"
      by (rule retry_always_failing)
    with Inr True show ?thesis by (auto simp: generate_embedding_def item_vector_def)
  next
    case False
    with assms obtain s1 where "create self s (Single t') = (Inr (map emb (inputs (Single t'))), s1)"
      unfolding fails_exactly_on_def by metis
    with Inr have "embedding_attempt self t s = (Inr (emb t'), s1)"
      by (simp add: embedding_attempt_def)
    then have "retry 2 (embedding_attempt self t) s = (Inr (emb t'), s1)"
      by (rule retry_first_success)
    with Inr False show ?thesis by (simp add: generate_embedding_def item_vector_def)
  qed
qed

lemma generate_individually_items:
  assumes "fails_exactly_on (create self) emb fails"
  shows "fst (generate_individually self batch s) = map (item_vector self emb fails) batch"
proof (induction batch arbitrary: s)
  case Nil
  show ?case by simp
next
  case (Cons t batch)
  from generate_embedding_item[OF assms, of t s] obtain r s1 where
    "generate_embedding self t s = (r, s1)"
    "(case r of Inr v \<Rightarrow> v | Inl _ \<Rightarrow> zero_vector self) = item_vector self emb fails t"
    by blast
  with Cons[of s1] show ?case by (simp add: case_prod_unfold Let_def)
qed

lemma map_truncated:
  "list_all2 (\<lambda>t t'. truncate_text self t = Inr t') batch batch' \<Longrightarrow>
   map g batch' = map (\<lambda>t. case truncate_text self t of Inl e \<Rightarrow> z | Inr t' \<Rightarrow> g t') batch"
  by (induction batch batch' rule: list_all2_induct) simp_all

lemma embed_one_batch_expected:
  assumes "fails_exactly_on (create self) emb fails"
  shows "fst (embed_one_batch self batch s) = map (expected_vector self emb fails batch) batch"
proof (cases "truncate_all self batch")
  case (Inl e)
  then show ?thesis
    by (simp add: embed_one_batch_def generate_individually_items[OF assms]
        expected_vector_def)
next
  case (Inr batch')
  note tr = truncate_all_results[OF Inr]
  show ?thesis
  proof (cases "fails (Batch batch')")
    case True
    with assms obtain e s1 where "create self s (Batch batch') = (Inl e, s1)"
      unfolding fails_exactly_on_def by metis
    with Inr True show ?thesis
      by (auto simp: embed_one_batch_def generate_individually_items[OF assms]
          expected_vector_def map_truncated[OF tr, of _ "zero_vector self"]
          split: sum.splits)
  next
    case False
    with assms obtain s1 where
      "create self s (Batch batch') = (Inr (map emb (inputs (Batch batch'))), s1)"
      unfolding fails_exactly_on_def by metis
    with Inr False show ?thesis
      by (auto simp: embed_one_batch_def expected_vector_def
          map_truncated[OF tr, of _ "zero_vector self"] split: sum.splits)
  qed
qed

lemma batch_of_index:
  assumes "0 < n" and "i = k * n" and "i \<le> j" and "j < i + n"
  shows "batch_of n xs j = take n (drop i xs)"
proof -
  have "j div n = k"
    by (rule div_nat_eqI) (use assms in \<open>simp_all add: mult.commute\<close>)
  with assms(2) show ?thesis by (simp add: batch_of_def)
qed

lemma embed_from_expected:
  "fails_exactly_on (create self) emb fails \<Longrightarrow> 0 < batch_size self \<Longrightarrow>
   i = k * nat (batch_size self) \<Longrightarrow>
   length embeddings = min i (length texts) \<Longrightarrow>
   (\<forall>j < length embeddings. embeddings ! j =
      expected_vector self emb fails (batch_of (nat (batch_size self)) texts j) (texts ! j)) \<Longrightarrow>
   length (fst (embed_from self texts i embeddings s)) = length texts \<and>
   (\<forall>j < length texts. fst (embed_from self texts i embeddings s) ! j =
      expected_vector self emb fails (batch_of (nat (batch_size self)) texts j) (texts ! j))"
proof (induction self texts i embeddings s arbitrary: k rule: embed_from.induct)
  case (1 self texts i embeddings s)
  let ?n = "nat (batch_size self)"
  let ?E = "\<lambda>j. expected_vector self emb fails (batch_of ?n texts j) (texts ! j)"
  show ?case
  proof (cases "i < length texts")
    case False
    then have "embed_from self texts i embeddings s = (embeddings, s)"
      by (simp add: embed_from.simps[of self texts i])
    with False "1.prems"(4,5) show ?thesis by simp
  next
    case True
    define batch where "batch = take ?n (drop i texts)"
    obtain vs s1 where b: "embed_one_batch self batch s = (vs, s1)"
      by (cases "embed_one_batch self batch s")
    have vs: "vs = map (expected_vector self emb fails batch) batch"
      using embed_one_batch_expected[OF "1.prems"(1), of batch s] b by simp
    have n: "0 < ?n" using "1.prems"(2) by simp
    have len_batch: "length batch = min ?n (length texts - i)" by (simp add: batch_def)
    have len_emb: "length embeddings = i" using "1.prems"(4) True by simp
    have len: "length (embeddings @ vs) = min (i + ?n) (length texts)"
      using len_emb len_batch vs True by auto
    have vals: "\<forall>j < length (embeddings @ vs). (embeddings @ vs) ! j = ?E j"
    proof (intro allI impI)
      fix j assume j: "j < length (embeddings @ vs)"
      show "(embeddings @ vs) ! j = ?E j"
      proof (cases "j < i")
        case True
        with "1.prems"(5) len_emb show ?thesis by (simp add: nth_append)
      next
        case False
        with j len have j2: "i \<le> j" "j < i + ?n" "j < length texts" by auto
        from batch_of_index[OF n "1.prems"(3) j2(1,2)]
        have bo: "batch_of ?n texts j = batch" by (simp add: batch_def)
        from j2 have "j - i < length batch" unfolding len_batch by arith
        moreover from j2 have "batch ! (j - i) = texts ! j"
          by (simp add: batch_def)
        ultimately show ?thesis
          using False len_emb vs bo by (simp add: nth_append)
      qed
    qed
    have cond: "0 < batch_size self \<and> i < length texts"
      using True "1.prems"(2) by simp
    have next_i: "i + ?n = Suc k * ?n" using "1.prems"(3) by simp
    from "1.IH"[OF cond batch_def refl b[symmetric] "1.prems"(1,2) next_i len vals] cond b
    show ?thesis
      by (simp add: embed_from.simps[of self texts i] batch_def[symmetric])
  qed
qed

text \<open>
  Claim C1. With a positive batch size and a provider that keeps its contract (a call that
  succeeds returns the embeddings of its inputs, in order), \<open>generate_embeddings_batch\<close>
  returns, for every list of texts, every provider state and every pattern of failing calls,
  a list of exactly as many vectors as there are texts, and the vector at index \<open>i\<close>
  corresponds to the text at index \<open>i\<close>: it is the embedding of that text as submitted, or
  the zero vector. Which of the two is fixed, index by index, whenever the failures of the
  provider are decided by its input: the vector at index \<open>i\<close> is the embedding of text \<open>i\<close>
  when the call for the batch that holds \<open>i\<close> succeeds, else the embedding of text \<open>i\<close> when
  its own call succeeds, else the zero vector. In particular a provider that never fails
  gives every text its embedding, however the texts are split into batches.
\<close>

theorem embeddings_length_and_order:
  assumes "0 < batch_size self" and "provider_embeds (create self) emb"
  shows "\<exists>vectors s'. generate_embeddings_batch self texts s = (Inr vectors, s') \<and>
           length vectors = length texts \<and>
           (\<forall>i < length texts. corresponds self emb (texts ! i) (vectors ! i)) \<and>
           (\<forall>fails. fails_exactly_on (create self) emb fails \<longrightarrow>
              (\<forall>i < length texts.
                 vectors ! i =
                   expected_vector self emb fails
                     (batch_of (nat (batch_size self)) texts i) (texts ! i)))"
proof -
  obtain vectors s' where e: "embed_from self texts 0 [] s = (vectors, s')"
    by (cases "embed_from self texts 0 [] s")
  have "list_all2 (corresponds self emb) texts (fst (embed_from self texts 0 [] s))"
    by (rule embed_from_results[OF assms(2,1)]) simp
  with e have "list_all2 (corresponds self emb) texts vectors" by simp
  then have 1: "length vectors = length texts"
    and 2: "\<forall>i < length texts. corresponds self emb (texts ! i) (vectors ! i)"
    by (simp_all add: list_all2_conv_all_nth)
  have 3: "\<forall>i < length texts. vectors ! i =
      expected_vector self emb fails (batch_of (nat (batch_size self)) texts i) (texts ! i)"
    if "fails_exactly_on (create self) emb fails" for fails
    using embed_from_expected[OF that assms(1), of 0 0 "[]" texts s] e by simp
  from e assms(1) 1 2 3 show ?thesis by (simp add: generate_embeddings_batch_def)
qed

theorem embeddings_length_and_order_witness:
  "0 < batch_size (sample_generator picky_create) \<and>
   provider_embeds (create (sample_generator picky_create)) sample_emb \<and>
   fails_exactly_on (create (sample_generator picky_create)) sample_emb
     (\<lambda>inp. case inp of Batch b \<Rightarrow> True | Single t \<Rightarrow> t = ''bb'') \<and>
   fst (generate_embeddings_batch (sample_generator picky_create) [''a'', ''bb'', ''ccc''] 0)
     = Inr [ [1], [0, 0], [3]]"
proof -
  let ?G = "sample_generator picky_create"
  let ?fails = "\<lambda>inp. case inp of Batch b \<Rightarrow> True | Single t \<Rightarrow> t = ''bb''"
  have size: "0 < batch_size ?G" by (simp add: sample_generator_def)
  have exact: "fails_exactly_on (create ?G) sample_emb ?fails"
    by (simp add: fails_exactly_on_def sample_generator_def picky_create_def)
  have contract: "provider_embeds (create ?G) sample_emb"
    by (rule fails_exactly_on_embeds[OF exact])
  have run: "fst (generate_embeddings_batch ?G [''a'', ''bb'', ''ccc''] 0)
     = Inr [ [1], [0, 0], [3]]"
    by code_simp
  from embeddings_length_and_order[OF size contract, of "[''a'', ''bb'', ''ccc'']" 0]
  show ?thesis using size contract exact run by simp
qed

lemma always_fails_attempt:
  assumes "always_fails (create self)"
  shows "\<exists>e s'. embedding_attempt self text s = (Inl e, s')"
proof (cases "truncate_text self text")
  case (Inl e)
  then show ?thesis by (simp add: embedding_attempt_def)
next
  case (Inr t1)
  from assms obtain e s1 where "create self s (Single t1) = (Inl e, s1)"
    unfolding always_fails_def by blast
  with Inr show ?thesis by (simp add: embedding_attempt_def)
qed

lemma three_failed_attempts:
  assumes "embedding_attempt self text s0 = (Inl e1, s1)"
    and "embedding_attempt self text s1 = (Inl e2, s2)"
    and "embedding_attempt self text s2 = (Inl e3, s3)"
  shows "generate_embedding self text s0 = (Inl (RetryError e3), s3)"
  using assms by (simp add: generate_embedding_def numeral_2_eq_2)

lemma failed_item_is_zero_vector:
  assumes "generate_embedding self text s0 = (Inl e, s1)"
  shows "generate_individually self (text # batch) s0 =
           (zero_vector self # fst (generate_individually self batch s1),
            snd (generate_individually self batch s1))"
  using assms by (simp add: case_prod_unfold Let_def)

lemma always_fails_individually:
  assumes "always_fails (create self)"
  shows "fst (generate_individually self batch s) = replicate (length batch) (zero_vector self)"
proof (induction batch arbitrary: s)
  case Nil
  show ?case by simp
next
  case (Cons t batch)
  have "\<exists>e s'. generate_embedding self t s = (Inl e, s')"
    unfolding generate_embedding_def
    by (rule retry_always_failing) (rule always_fails_attempt[OF assms])
  then obtain e s1 where "generate_embedding self t s = (Inl e, s1)" by blast
  with Cons[of s1] show ?case by (simp add: case_prod_unfold)
qed

lemma truncate_all_length:
  "truncate_all self batch = Inr batch' \<Longrightarrow> length batch' = length batch"
  by (induction batch arbitrary: batch') (auto split: sum.splits)

lemma always_fails_one_batch:
  assumes "always_fails (create self)"
  shows "fst (embed_one_batch self batch s) = replicate (length batch) (zero_vector self)"
proof (cases "truncate_all self batch")
  case (Inl e)
  then show ?thesis by (simp add: embed_one_batch_def always_fails_individually[OF assms])
next
  case (Inr batch')
  from assms obtain e s1 where "create self s (Batch batch') = (Inl e, s1)"
    unfolding always_fails_def by blast
  with Inr show ?thesis
    by (simp add: embed_one_batch_def always_fails_individually[OF assms] truncate_all_length)
qed

lemma always_fails_embed_from:
  "always_fails (create self) \<Longrightarrow> 0 < batch_size self \<Longrightarrow>
   embeddings = replicate (min i (length texts)) (zero_vector self) \<Longrightarrow>
   fst (embed_from self texts i embeddings s) = replicate (length texts) (zero_vector self)"
proof (induction self texts i embeddings s rule: embed_from.induct)
  case (1 self texts i embeddings s)
  show ?case
  proof (cases "i < length texts")
    case False
    with "1.prems" show ?thesis by (simp add: embed_from.simps[of self texts i])
  next
    case True
    define batch where "batch = take (nat (batch_size self)) (drop i texts)"
    obtain vs s1 where b: "embed_one_batch self batch s = (vs, s1)"
      by (cases "embed_one_batch self batch s")
    have vs: "vs = replicate (length batch) (zero_vector self)"
      using always_fails_one_batch[OF "1.prems"(1), of batch s] b by simp
    have "length batch = min (nat (batch_size self)) (length texts - i)"
      by (simp add: batch_def)
    with True have "min i (length texts) + length batch = min (i + nat (batch_size self)) (length texts)"
      by simp
    with vs "1.prems"(3) have inv:
      "embeddings @ vs = replicate (min (i + nat (batch_size self)) (length texts)) (zero_vector self)"
      by (simp add: replicate_add[symmetric] del: replicate_add)
    have cond: "0 < batch_size self \<and> i < length texts"
      using True "1.prems"(2) by simp
    from "1.IH"[OF cond batch_def refl b[symmetric] "1.prems"(1,2) inv] cond b show ?thesis
      by (simp add: embed_from.simps[of self texts i] batch_def[symmetric])
  qed
qed

text \<open>
  Claim C2. With a positive batch size, no failure of the embedding provider (or of the
  tokenizer) leaves \<open>generate_embeddings_batch\<close>: the result is a list of vectors for every
  provider. When the call for a whole batch fails, the batch is embedded text by text; a
  text whose three attempts all fail gets the zero vector of the configured dimension and
  the loop goes on with the next text. With a provider that fails every call the result is
  one zero vector per text.
\<close>

theorem provider_failures_do_not_propagate:
  assumes "0 < batch_size self"
  shows "(\<exists>vectors s'. generate_embeddings_batch self texts s = (Inr vectors, s') \<and>
            (always_fails (create self) \<longrightarrow>
               vectors = replicate (length texts) (replicate (nat (dimension self)) 0))) \<and>
         (\<forall>batch batch' e s0 s1.
            truncate_all self batch = Inr batch' \<longrightarrow>
            create self s0 (Batch batch') = (Inl e, s1) \<longrightarrow>
            embed_one_batch self batch s0 = generate_individually self batch' s1) \<and>
         (\<forall>text batch e1 e2 e3 s0 s1 s2 s3.
            embedding_attempt self text s0 = (Inl e1, s1) \<longrightarrow>
            embedding_attempt self text s1 = (Inl e2, s2) \<longrightarrow>
            embedding_attempt self text s2 = (Inl e3, s3) \<longrightarrow>
            fst (generate_individually self (text # batch) s0) =
              replicate (nat (dimension self)) 0 # fst (generate_individually self batch s3))"
proof (intro conjI allI impI)
  obtain vectors s' where e: "embed_from self texts 0 [] s = (vectors, s')"
    by (cases "embed_from self texts 0 [] s")
  have "always_fails (create self) \<Longrightarrow>
        vectors = replicate (length texts) (replicate (nat (dimension self)) 0)"
    using always_fails_embed_from[OF _ assms, of "[]" 0 texts s] e
    by (simp add: zero_vector_def)
  with e assms show "\<exists>vectors s'. generate_embeddings_batch self texts s = (Inr vectors, s') \<and>
            (always_fails (create self) \<longrightarrow>
               vectors = replicate (length texts) (replicate (nat (dimension self)) 0))"
    by (simp add: generate_embeddings_batch_def)
next
  fix batch batch' e s0 s1
  assume "truncate_all self batch = Inr batch'" "create self s0 (Batch batch') = (Inl e, s1)"
  then show "embed_one_batch self batch s0 = generate_individually self batch' s1"
    by (simp add: embed_one_batch_def)
next
  fix t batch e1 e2 e3 s0 s1 s2 s3
  assume "embedding_attempt self t s0 = (Inl e1, s1)"
    "embedding_attempt self t s1 = (Inl e2, s2)"
    "embedding_attempt self t s2 = (Inl e3, s3)"
  then have "generate_embedding self t s0 = (Inl (RetryError e3), s3)"
    by (rule three_failed_attempts)
  then show "fst (generate_individually self (t # batch) s0) =
              replicate (nat (dimension self)) 0 # fst (generate_individually self batch s3)"
    by (simp add: zero_vector_def case_prod_unfold Let_def)
qed

theorem provider_failures_do_not_propagate_witness:
  "0 < batch_size (sample_generator failing_create) \<and>
   always_fails (create (sample_generator failing_create)) \<and>
   generate_embeddings_batch (sample_generator failing_create) [''a'', ''bb'', ''ccc''] 0
     = (Inr [ [0, 0], [0, 0], [0, 0]], 11)"
proof -
  let ?G = "sample_generator failing_create"
  have size: "0 < batch_size ?G" by (simp add: sample_generator_def)
  have fails: "always_fails (create ?G)"
    by (simp add: always_fails_def sample_generator_def failing_create_def)
  have run: "generate_embeddings_batch ?G [''a'', ''bb'', ''ccc''] 0
     = (Inr [ [0, 0], [0, 0], [0, 0]], 11)"
    by code_simp
  from provider_failures_do_not_propagate[OF size, of "[''a'', ''bb'', ''ccc'']" 0]
  show ?thesis using size fails run by simp
qed

section \<open>Concept classifier: priority of the example markers\<close>

text \<open>
  Claim C4. A paragraph whose lower-cased text contains an example marker and a formula
  marker is classified \<open>EXAMPLE\<close>, never \<open>FORMULA\<close>: the example markers are tested first.
  The concept the segmenter makes of such a paragraph (of at least 50 characters) has
  content type \<open>EXAMPLE\<close>.
\<close>

theorem classify_example_before_formula:
  assumes "ex \<in> set example_markers" and "contains (lower para) ex"
    and "fm \<in> set formula_markers" and "contains (lower para) fm"
  shows "classify_content para = EXAMPLE \<and> classify_content para \<noteq> FORMULA \<and>
         (50 \<le> length para \<longrightarrow>
            map concept_type (fst (concepts_of_paragraphs uuid n [para])) = [EXAMPLE])"
proof -
  from assms have "classify_content para = EXAMPLE"
    by (auto simp: classify_content_def any_in_def list_ex_iff Let_def)
  then show ?thesis by (simp add: Let_def)
qed

theorem classify_example_before_formula_witness:
  "''example:'' \<in> set example_markers \<and> contains (lower ''Example: x = 1'') ''example:'' \<and>
   ''='' \<in> set formula_markers \<and> contains (lower ''Example: x = 1'') ''='' \<and>
   classify_content ''Example: x = 1'' = EXAMPLE"
proof -
  have ex: "''example:'' \<in> set example_markers" by (simp add: example_markers_def)
  have fm: "''='' \<in> set formula_markers" by (simp add: formula_markers_def)
  have c1: "contains (lower ''Example: x = 1'') ''example:''" by code_simp
  have c2: "contains (lower ''Example: x = 1'') ''=''" by code_simp
  from classify_example_before_formula[OF ex c1 fm c2] show ?thesis
    using ex fm c1 c2 by simp
qed

section \<open>Section headings: the single-letter list item\<close>

lemma char_eq_code: "(a = b) = (code a = code b)"
  by (auto simp: code_def)

lemma code_lower_char:
  "code (lower_char c) =
     (if is_upper c \<or> (192 \<le> code c \<and> code c \<le> 222 \<and> code c \<noteq> 215)
      then code c + 32 else code c)"
  by (simp add: lower_char_def code_def is_upper_def)

lemma accepts_letter_range:
  "accepts (Range CHR ''A'' CHR ''Z'') c = (is_upper c \<or> is_lower c)"
  by (auto simp: in_range_def lower_char_def upper_char_def is_upper_def is_lower_def code_def)

lemma accepts_full_stop: "accepts (Lit CHR ''.'') c = (c = CHR ''.'')"
  by (auto simp: char_eq_code code_lower_char is_upper_def) (simp_all add: code_def)

lemma rmatch_length:
  "rmatch ts pos s gs cur = Some r \<Longrightarrow> length r = length gs + count_list ts Close"
  by (induction ts pos s gs cur rule: rmatch.induct) (auto split: if_splits option.splits)

lemma letter_section_shape:
  assumes "re_match letter_section_pattern line = Some groups"
  shows "\<exists>c rest. line = c # CHR ''.'' # rest \<and> (is_upper c \<or> is_lower c)"
proof (cases line)
  case Nil
  with assms show ?thesis by (simp add: re_match_def letter_section_pattern_def)
next
  case (Cons c cs)
  show ?thesis
  proof (cases cs)
    case Nil
    with Cons assms show ?thesis
      by (simp add: re_match_def letter_section_pattern_def split: if_splits)
  next
    case (Cons d rest)
    with \<open>line = c # cs\<close> assms show ?thesis
      by (simp add: re_match_def letter_section_pattern_def accepts_letter_range
          accepts_full_stop del: accepts.simps split: if_splits)
  qed
qed

lemma numeric_section_needs_digit:
  "\<not> is_digit c \<Longrightarrow> re_match numeric_section_pattern (c # cs) = None"
  by (simp add: re_match_def numeric_section_pattern_def dotted_number_def)

lemma keyword_section_second_char:
  "re_match keyword_section_pattern (c # CHR ''.'' # cs) = None"
  by (simp add: re_match_def keyword_section_pattern_def lits_def char_eq_code
      code_lower_char is_upper_def) (simp add: code_def)

text \<open>
  Claim C10. A line matched by the single-letter list-item pattern (a letter of either
  case, a full stop, white space and a title) is recognised by \<open>_match_section\<close> as a
  section whose number label is the constant \<open>''A''\<close>, whichever letter the line starts with;
  its title is the stripped capture.
\<close>

theorem letter_section_number_is_A:
  assumes "re_match letter_section_pattern line = Some groups"
  shows "\<exists>title. groups = [title] \<and> match_section line = Some (''A'', strip title)"
proof -
  from letter_section_shape[OF assms] obtain c rest where
    line: "line = c # CHR ''.'' # rest" and c: "is_upper c \<or> is_lower c" by blast
  from c have "\<not> is_digit c" by (auto simp: is_digit_def is_upper_def is_lower_def)
  then have n1: "re_match numeric_section_pattern line = None"
    unfolding line by (rule numeric_section_needs_digit)
  have n2: "re_match keyword_section_pattern line = None"
    unfolding line by (rule keyword_section_second_char)
  from assms have "length groups = 1"
    by (simp add: re_match_def letter_section_pattern_def rmatch_length[where r=groups])
  then obtain title where g: "groups = [title]"
    by (cases groups) auto
  show ?thesis
    using n1 n2 assms g by (simp add: match_section_def section_patterns_def)
qed

theorem letter_section_number_is_A_witness:
  "re_match letter_section_pattern ''b. Energy and work'' = Some [''Energy and work'']
   \<and> match_section ''b. Energy and work'' = Some (''A'', ''Energy and work'')"
proof -
  have m: "re_match letter_section_pattern ''b. Energy and work'' = Some [''Energy and work'']"
    by code_simp
  have s: "strip ''Energy and work'' = ''Energy and work''" by code_simp
  from letter_section_number_is_A[OF m] s show ?thesis using m by simp
qed

section \<open>Vector Indexer: which concepts are stored\<close>

declare upsert_from.simps [simp del]

lemma collect_vectors_ids:
  "map vector_id (collect_vectors book now) =
   map concept_id (filter has_embedding (all_concepts book))"
  by (simp add: collect_vectors_def all_concepts_def create_vector_data_def map_concat
      filter_concat comp_def)

lemma upsert_from_never_fails:
  "never_fails upsert \<Longrightarrow>
   fst (upsert_from upsert vectors i stored_count index) = stored_count + (length vectors - i)"
proof (induction upsert vectors i stored_count index rule: upsert_from.induct)
  case (1 upsert vectors i stored_count index)
  show ?case
  proof (cases "i < length vectors")
    case False
    then show ?thesis by (simp add: upsert_from.simps[of upsert vectors i])
  next
    case True
    define batch where "batch = take vector_batch_size (drop i vectors)"
    from "1.prems" obtain index' where u: "upsert index batch = (Inr (), index')"
      unfolding never_fails_def by blast
    have len: "length batch = min vector_batch_size (length vectors - i)"
      by (simp add: batch_def)
    from "1.IH"(2)[OF True batch_def u[symmetric] refl "1.prems"]
    have "fst (upsert_from upsert vectors (i + vector_batch_size) (stored_count + length batch) index')
          = stored_count + length batch + (length vectors - (i + vector_batch_size))" .
    with True u len show ?thesis
      by (simp add: upsert_from.simps[of upsert vectors i] batch_def[symmetric] min_def)
  qed
qed

lemma upsert_from_index:
  "snd (upsert_from index_upsert vectors i stored_count index) =
   foldl (\<lambda>stored v. AList.update (vector_id v) v stored) index (drop i vectors)"
proof (induction index_upsert vectors i stored_count index rule: upsert_from.induct)
  case (1 vectors i stored_count index)
  show ?case
  proof (cases "i < length vectors")
    case False
    then show ?thesis by (simp add: upsert_from.simps[of index_upsert vectors i])
  next
    case True
    define batch where "batch = take vector_batch_size (drop i vectors)"
    define index' where "index' = foldl (\<lambda>stored v. AList.update (vector_id v) v stored) index batch"
    have u: "index_upsert index batch = (Inr (), index')"
      by (simp add: index_upsert_def index'_def)
    have split: "drop i vectors = batch @ drop (i + vector_batch_size) vectors"
      using append_take_drop_id[of vector_batch_size "drop i vectors"]
      by (simp add: batch_def add.commute)
    from "1.hyps"(2)[OF True batch_def u[symmetric] refl]
    have "snd (upsert_from index_upsert vectors (i + vector_batch_size) (stored_count + length batch) index')
          = foldl (\<lambda>stored v. AList.update (vector_id v) v stored) index'
              (drop (i + vector_batch_size) vectors)" .
    with True u show ?thesis
      by (simp add: upsert_from.simps[of index_upsert vectors i] batch_def[symmetric]
          arg_cong[OF split, of "foldl _ index"] index'_def)
  qed
qed

lemma update_fresh: "k \<notin> fst ` set al \<Longrightarrow> AList.update k v al = al @ [(k, v)]"
  by (induction al) auto

lemma fold_update_fresh:
  "distinct (map vector_id vs) \<Longrightarrow> fst ` set al \<inter> vector_id ` set vs = {} \<Longrightarrow>
   foldl (\<lambda>stored v. AList.update (vector_id v) v stored) al vs =
   al @ map (\<lambda>v. (vector_id v, v)) vs"
proof (induction vs arbitrary: al)
  case Nil
  show ?case by simp
next
  case (Cons v vs)
  from Cons.prems have fresh: "vector_id v \<notin> fst ` set al" by auto
  have "fst ` set (al @ [(vector_id v, v)]) \<inter> vector_id ` set vs = {}"
    using Cons.prems by auto
  with Cons.IH[of "al @ [(vector_id v, v)]"] Cons.prems(1) fresh show ?case
    by (simp add: update_fresh)
qed

lemma distinct_filter_map: "distinct (map f xs) \<Longrightarrow> distinct (map f (filter P xs))"
  by (induction xs) auto

text \<open>
  Claim C8, as the code has it. For every book, \<open>store_book_vectors\<close> prepares exactly one
  vector per concept whose embedding is present and not empty, in document order, and
  skips every other concept (embedding absent or empty) without raising. When no batch
  upsert fails the returned count is the number of those concepts, and an empty index that
  upserts by id then holds exactly their vectors, one per concept id when the ids are
  distinct. (A concept whose embedding is the empty list is skipped as well, and a batch
  whose upsert fails is not stored: the claim as stated does not hold there.)
\<close>

theorem vector_indexer_stores_embedded_concepts:
  "map vector_id (collect_vectors book now) =
     map concept_id (filter has_embedding (all_concepts book)) \<and>
   (never_fails upsert \<longrightarrow>
      fst (store_book_vectors upsert book now index) =
        length (filter has_embedding (all_concepts book))) \<and>
   (distinct (map concept_id (all_concepts book)) \<longrightarrow>
      store_book_vectors index_upsert book now [] =
        (length (filter has_embedding (all_concepts book)),
         map (\<lambda>v. (vector_id v, v)) (collect_vectors book now)))"
proof (intro conjI impI)
  show ids: "map vector_id (collect_vectors book now) =
     map concept_id (filter has_embedding (all_concepts book))"
    by (rule collect_vectors_ids)
  then have len: "length (collect_vectors book now) = length (filter has_embedding (all_concepts book))"
    by (metis length_map)
  show "fst (store_book_vectors upsert book now index) =
        length (filter has_embedding (all_concepts book))" if "never_fails upsert"
    using upsert_from_never_fails[OF that, of "collect_vectors book now" 0 0 index] len
    by (simp add: store_book_vectors_def)
  show "store_book_vectors index_upsert book now [] =
        (length (filter has_embedding (all_concepts book)),
         map (\<lambda>v. (vector_id v, v)) (collect_vectors book now))"
    if d: "distinct (map concept_id (all_concepts book))"
  proof -
    have nf: "never_fails index_upsert"
      by (simp add: never_fails_def index_upsert_def)
    have "distinct (map vector_id (collect_vectors book now))"
      unfolding ids using d by (rule distinct_filter_map)
    then have "snd (store_book_vectors index_upsert book now []) =
        map (\<lambda>v. (vector_id v, v)) (collect_vectors book now)"
      by (simp add: store_book_vectors_def upsert_from_index fold_update_fresh)
    moreover have "fst (store_book_vectors index_upsert book now []) =
        length (filter has_embedding (all_concepts book))"
      using upsert_from_never_fails[OF nf, of "collect_vectors book now" 0 0 "[]"] len
      by (simp add: store_book_vectors_def)
    ultimately show ?thesis by (simp add: prod_eq_iff)
  qed
qed


theorem vector_indexer_stores_embedded_concepts_witness:
  "never_fails index_upsert \<and>
   distinct (map concept_id (all_concepts (sample_book three_concepts))) \<and>
   fst (store_book_vectors index_upsert (sample_book three_concepts) ''t'' []) = 2 \<and>
   map fst (snd (store_book_vectors index_upsert (sample_book three_concepts) ''t'' []))
     = [''c1'', ''c3'']"
proof -
  have nf: "never_fails index_upsert"
    by (simp add: never_fails_def index_upsert_def)
  have d: "distinct (map concept_id (all_concepts (sample_book three_concepts)))"
    by (simp add: all_concepts_def sample_book_def three_concepts_def sample_concept_def)
  have n: "map concept_id (filter has_embedding (all_concepts (sample_book three_concepts)))
      = [''c1'', ''c3'']"
    by (simp add: all_concepts_def sample_book_def three_concepts_def sample_concept_def
        has_embedding_def)
  then have "length (filter has_embedding (all_concepts (sample_book three_concepts))) = 2"
    by (metis length_map length_Cons list.size(3) One_nat_def Suc_1)
  with vector_indexer_stores_embedded_concepts
    [of "sample_book three_concepts" "''t''" index_upsert "[]"] nf d n
  show ?thesis by (simp add: comp_def)
qed

text \<open>
  Where claim C8 fails as stated: a concept whose embedding is the empty list has an
  embedding that is not null, and no vector is stored for it.
\<close>

theorem empty_embedding_not_stored:
  "embedding (sample_concept ''c1'' (Some [])) \<noteq> None \<and>
   store_book_vectors index_upsert (sample_book [sample_concept ''c1'' (Some [])]) ''t'' []
     = (0, [])"
  by (simp add: store_book_vectors_def collect_vectors_def sample_book_def sample_concept_def
      has_embedding_def upsert_from.simps)

section \<open>Pipeline Orchestrator: a failure at the graph-write stage\<close>

lemma run_never_resurrected:
  assumes "status job = PENDING"
  shows "never_resurrected (job # fst (process_pdf_states p started finished job))"
  using assms
  by (simp add: process_pdf_states_def Let_def terminal_def job_failed_def
      split: outcome.splits)

text \<open>
  Claim C9, as the code has it. When extraction and embedding succeed and the graph-write
  stage raises an exception \<open>e\<close> derived from \<open>Exception\<close>, the job a pending upload
  registered ends with status \<open>failed\<close>, progress exactly 50 and \<open>str(e)\<close> as its error
  message (so a non-empty message exactly when the exception has one), no exception leaves
  the task, and along the run no state that follows a terminal state is \<open>processing\<close>.
\<close>

theorem graph_failure_fails_job:
  assumes "processing_jobs jid = Some job" and "status job = PENDING"
    and "extract_stage p = Returned book" and "embed_stage p book = Returned book'"
    and "graph_stage p book' = Raised_exception e"
  shows "\<exists>job'. fst (process_pdf_task processing_jobs jid p started finished) jid = Some job' \<and>
           snd (process_pdf_task processing_jobs jid p started finished) = None \<and>
           status job' = FAILED \<and> progress job' = 50 \<and>
           error_message job' = Some (message e) \<and>
           never_resurrected (job # fst (process_pdf_states p started finished job))"
proof -
  have "process_pdf_states p started finished job =
      ([job\<lparr>status := PROCESSING, started_at := Some started\<rparr>,
        job\<lparr>status := PROCESSING, started_at := Some started, progress := 25\<rparr>,
        job\<lparr>status := PROCESSING, started_at := Some started, progress := 50\<rparr>,
        job_failed e finished
          (job\<lparr>status := PROCESSING, started_at := Some started, progress := 50\<rparr>)], None)"
    using assms(3-5) by (simp add: process_pdf_states_def Let_def)
  then have "process_pdf_task processing_jobs jid p started finished =
      (processing_jobs(jid \<mapsto> job_failed e finished
         (job\<lparr>status := PROCESSING, started_at := Some started, progress := 50\<rparr>)), None)"
    using assms(1) by (simp add: process_pdf_task_def)
  then show ?thesis
    using run_never_resurrected[OF assms(2)] by (simp add: job_failed_def)
qed

theorem graph_failure_fails_job_witness:
  "book_title (new_job ''j1'' ''physics.pdf'') = ''physics'' \<and>
   (\<exists>job'. fst (process_pdf_task [''j1'' \<mapsto> new_job ''j1'' ''physics.pdf''] ''j1''
              (graph_failure
                 (Raised_exception (Raised ''ServiceUnavailable'' ''graph store down'')))
              ''t0'' ''t1'') ''j1'' = Some job' \<and>
           status job' = FAILED \<and> progress job' = 50 \<and>
           error_message job' = Some ''graph store down'')"
proof -
  let ?e = "Raised ''ServiceUnavailable'' ''graph store down''"
  have t: "book_title (new_job ''j1'' ''physics.pdf'') = ''physics''" by code_simp
  have a1: "[''j1'' \<mapsto> new_job ''j1'' ''physics.pdf''] ''j1'' = Some (new_job ''j1'' ''physics.pdf'')"
    by simp
  have a2: "status (new_job ''j1'' ''physics.pdf'') = PENDING" by (simp add: new_job_def)
  have a3: "extract_stage (graph_failure (Raised_exception ?e)) = Returned (sample_book [])"
    by (simp add: graph_failure_def)
  have a4: "embed_stage (graph_failure (Raised_exception ?e)) (sample_book []) =
      Returned (sample_book [])"
    by (simp add: graph_failure_def)
  have a5: "graph_stage (graph_failure (Raised_exception ?e)) (sample_book []) =
      Raised_exception ?e"
    by (simp add: graph_failure_def)
  from graph_failure_fails_job
    [where processing_jobs = "[''j1'' \<mapsto> new_job ''j1'' ''physics.pdf'']" and jid = "''j1''"
       and started = "''t0''" and finished = "''t1''", OF a1 a2 a3 a4 a5]
  have "\<exists>job'. fst (process_pdf_task [''j1'' \<mapsto> new_job ''j1'' ''physics.pdf''] ''j1''
              (graph_failure (Raised_exception ?e)) ''t0'' ''t1'') ''j1'' = Some job' \<and>
           status job' = FAILED \<and> progress job' = 50 \<and>
           error_message job' = Some ''graph store down''"
    by auto
  with t show ?thesis by (intro conjI)
qed

text \<open>
  Where claim C9 fails as stated: the graph-write stage raises an exception whose message
  is empty (a bare timeout), and the failed job's error message is the empty string.
\<close>

theorem empty_exception_message_recorded:
  "graph_stage (graph_failure (Raised_exception timeout_error)) (sample_book []) =
     Raised_exception timeout_error \<and>
   status (last (fst (process_pdf_states (graph_failure (Raised_exception timeout_error))
                        ''t0'' ''t1'' (new_job ''j1'' ''physics.pdf'')))) = FAILED \<and>
   error_message (last (fst (process_pdf_states (graph_failure (Raised_exception timeout_error))
                        ''t0'' ''t1'' (new_job ''j1'' ''physics.pdf'')))) = Some []"
  by (simp add: graph_failure_def process_pdf_states_def job_failed_def timeout_error_def
      Let_def)

text \<open>
  The handler does not take an exception that is not derived from \<open>Exception\<close>: when the
  graph-write stage is cancelled, the exception leaves the task and the job stays
  \<open>processing\<close> at progress 50, with no error message and no completion time.
\<close>

lemma cancelled_graph_stage_leaves_job_processing:
  "snd (process_pdf_task [''j1'' \<mapsto> new_job ''j1'' ''physics.pdf''] ''j1''
          (graph_failure (Raised_base cancelled_error)) ''t0'' ''t1'') = Some cancelled_error \<and>
   map_option (\<lambda>job. (status job, progress job, error_message job, completed_at job))
     (fst (process_pdf_task [''j1'' \<mapsto> new_job ''j1'' ''physics.pdf''] ''j1''
             (graph_failure (Raised_base cancelled_error)) ''t0'' ''t1'') ''j1'')
     = Some (PROCESSING, 50, None, None)"
  by (simp add: graph_failure_def process_pdf_task_def process_pdf_states_def new_job_def
      Let_def)

section \<open>Graph Builder: what reaches the store\<close>

lemma store_tx_run_dropped [simp]: "store (tx_run_dropped tx q) = store tx"
  by (simp add: tx_run_dropped_def)

lemma store_foldl_unchanged:
  assumes "\<And>tx x. store (f tx x) = store tx"
  shows "store (foldl f tx xs) = store tx"
  by (induction xs arbitrary: tx) (simp_all add: assms)

lemma store_create_book_node [simp]: "store (create_book_node tx book) = store tx"
  by (simp add: create_book_node_def)

lemma store_create_chapter_structure [simp]:
  "store (create_chapter_structure tx bid chapter) = store tx"
  unfolding create_chapter_structure_def
  by (simp add: store_foldl_unchanged)

lemma store_create_prerequisite_relation [simp]:
  "store (create_prerequisite_relation tx from_id to_id) = store tx"
  by (simp add: create_prerequisite_relation_def)

lemma store_create_concept_relationships [simp]:
  "store (create_concept_relationships session book) = store session"
  unfolding create_concept_relationships_def Let_def
  by (simp add: store_foldl_unchanged)

lemma store_foldl_session_run:
  "store (foldl session_run session qs) = foldl run (store session) qs"
  by (induction qs arbitrary: session) (simp_all add: session_run_def)

lemma store_create_book_graph:
  "store (create_book_graph g book) = foldl run g index_statements"
  by (simp add: create_book_graph_def ensure_indexes_def store_foldl_session_run
      store_foldl_unchanged)

lemma nodes_run_create_index [simp]: "nodes (run g (Create_index l p)) = nodes g"
  by simp

lemma edges_run_create_index [simp]: "edges (run g (Create_index l p)) = edges g"
  by simp

lemma nodes_create_book_graph: "nodes (store (create_book_graph g book)) = nodes g"
  by (simp add: store_create_book_graph index_statements_def del: run.simps)

lemma edges_create_book_graph: "edges (store (create_book_graph g book)) = edges g"
  by (simp add: store_create_book_graph index_statements_def del: run.simps)

lemma run_index_present: "(l, p) \<in> set (indexes g) \<Longrightarrow> run g (Create_index l p) = g"
  by simp

lemma index_kept: "x \<in> set (indexes g) \<Longrightarrow> x \<in> set (indexes (run g (Create_index l p)))"
  by simp

lemma index_made: "(l, p) \<in> set (indexes (run g (Create_index l p)))"
  by simp

lemma index_statements_settled:
  "foldl run (foldl run g index_statements) index_statements = foldl run g index_statements"
proof -
  define g1 where "g1 = run g (Create_index Book_label ''id'')"
  define g2 where "g2 = run g1 (Create_index Chapter_label ''id'')"
  define g3 where "g3 = run g2 (Create_index Section_label ''id'')"
  define g4 where "g4 = run g3 (Create_index Concept_label ''id'')"
  define g5 where "g5 = run g4 (Create_index Concept_label ''name'')"
  have first: "foldl run g index_statements = g5"
    by (simp add: index_statements_def g1_def g2_def g3_def g4_def g5_def del: run.simps)
  have i1: "(Book_label, ''id'') \<in> set (indexes g5)"
    unfolding g5_def g4_def g3_def g2_def g1_def by (intro index_kept index_made)
  have i2: "(Chapter_label, ''id'') \<in> set (indexes g5)"
    unfolding g5_def g4_def g3_def g2_def by (intro index_kept index_made)
  have i3: "(Section_label, ''id'') \<in> set (indexes g5)"
    unfolding g5_def g4_def g3_def by (intro index_kept index_made)
  have i4: "(Concept_label, ''id'') \<in> set (indexes g5)"
    unfolding g5_def g4_def by (intro index_kept index_made)
  have i5: "(Concept_label, ''name'') \<in> set (indexes g5)"
    unfolding g5_def by (intro index_made)
  have "foldl run g5 index_statements = g5"
    by (simp add: index_statements_def run_index_present i1 i2 i3 i4 i5 del: run.simps)
  with first show ?thesis by simp
qed

text \<open>
  Claim C5 against the code. For the book whose concepts are \<open>c1\<close>, \<open>c2\<close>, \<open>c3\<close> in document
  order, on the empty store, \<open>create_book_graph\<close> builds the two statements that would merge
  the edges \<open>c1 -> c2\<close> and \<open>c2 -> c3\<close>, and neither reaches the store: after the run the
  store has no node and no edge, so neither prerequisite edge exists. On every store and for
  every book the run leaves the nodes and the edges as they were.
\<close>

theorem prerequisite_edges_not_created:
  "map concept_id (all_concepts (sample_book three_concepts)) = [''c1'', ''c2'', ''c3''] \<and>
   filter is_prerequisite_statement
     (unsent (create_book_graph empty_graph (sample_book three_concepts))) =
     [prerequisite_query ''c1'' ''c2'', prerequisite_query ''c2'' ''c3''] \<and>
   nodes (store (create_book_graph empty_graph (sample_book three_concepts))) = [] \<and>
   edges (store (create_book_graph empty_graph (sample_book three_concepts))) = [] \<and>
   \<not> prerequisite (store (create_book_graph empty_graph (sample_book three_concepts)))
        (Concept_label, ''c1'') (Concept_label, ''c2'') \<and>
   \<not> prerequisite (store (create_book_graph empty_graph (sample_book three_concepts)))
        (Concept_label, ''c2'') (Concept_label, ''c3'') \<and>
   (\<forall>g book. nodes (store (create_book_graph g book)) = nodes g \<and>
              edges (store (create_book_graph g book)) = edges g)"
proof (intro conjI allI)
  show "map concept_id (all_concepts (sample_book three_concepts)) = [''c1'', ''c2'', ''c3'']"
    by code_simp
  show "filter is_prerequisite_statement
     (unsent (create_book_graph empty_graph (sample_book three_concepts))) =
     [prerequisite_query ''c1'' ''c2'', prerequisite_query ''c2'' ''c3'']"
    by code_simp
  show "nodes (store (create_book_graph empty_graph (sample_book three_concepts))) = []"
    by (simp add: nodes_create_book_graph empty_graph_def)
  show "edges (store (create_book_graph empty_graph (sample_book three_concepts))) = []"
    by (simp add: edges_create_book_graph empty_graph_def)
  show "\<not> prerequisite (store (create_book_graph empty_graph (sample_book three_concepts)))
        (Concept_label, ''c1'') (Concept_label, ''c2'')"
    by (simp add: prerequisite_def edges_create_book_graph empty_graph_def)
  show "\<not> prerequisite (store (create_book_graph empty_graph (sample_book three_concepts)))
        (Concept_label, ''c2'') (Concept_label, ''c3'')"
    by (simp add: prerequisite_def edges_create_book_graph empty_graph_def)
  show "nodes (store (create_book_graph g book)) = nodes g" for g book
    by (rule nodes_create_book_graph)
  show "edges (store (create_book_graph g book)) = edges g" for g book
    by (rule edges_create_book_graph)
qed

text \<open>
  Claim C6. For every store and every book, a second run of \<open>create_book_graph\<close> on the
  store the first run left leaves that store as it is: the same nodes, the same edges and
  the same indexes, hence the same counts and no duplicate. It holds of the code because a
  run sends the store its five \<open>CREATE INDEX IF NOT EXISTS\<close> statements and nothing else:
  no run, first or second, adds a node or an edge.
\<close>

theorem create_book_graph_idempotent:
  "store (create_book_graph (store (create_book_graph g book)) book) =
     store (create_book_graph g book) \<and>
   nodes (store (create_book_graph g book)) = nodes g \<and>
   edges (store (create_book_graph g book)) = edges g"
proof (intro conjI)
  show "store (create_book_graph (store (create_book_graph g book)) book) =
      store (create_book_graph g book)"
    by (simp add: store_create_book_graph index_statements_settled)
  show "nodes (store (create_book_graph g book)) = nodes g"
    by (rule nodes_create_book_graph)
  show "edges (store (create_book_graph g book)) = edges g"
    by (rule edges_create_book_graph)
qed

theorem create_book_graph_idempotent_witness:
  "store (create_book_graph (store (create_book_graph empty_graph (sample_book three_concepts)))
            (sample_book three_concepts)) =
     store (create_book_graph empty_graph (sample_book three_concepts)) \<and>
   length (nodes (store (create_book_graph empty_graph (sample_book three_concepts)))) = 0 \<and>
   length (edges (store (create_book_graph empty_graph (sample_book three_concepts)))) = 0 \<and>
   length (indexes (store (create_book_graph empty_graph (sample_book three_concepts)))) = 5"
proof -
  have "length (indexes (store (create_book_graph empty_graph (sample_book three_concepts)))) = 5"
    by code_simp
  with create_book_graph_idempotent[of empty_graph "sample_book three_concepts"]
  show ?thesis by (simp add: empty_graph_def)
qed

section \<open>Graph Query Layer: the shortest-path query\<close>

text \<open>
  Claim C7 against the code. On the store that holds the chain \<open>c1 -> c2 -> c3\<close>,
  \<open>_find_shortest_path\<close> from \<open>c1\<close> to \<open>c3\<close> returns no path: it raises \<open>AttributeError\<close>,
  which \<open>find_learning_path\<close> lets through. It does so on every store and for every pair
  of identities.
\<close>

theorem find_shortest_path_raises:
  "prerequisite chain_graph (Concept_label, ''c1'') (Concept_label, ''c2'') \<and>
   prerequisite chain_graph (Concept_label, ''c2'') (Concept_label, ''c3'') \<and>
   find_shortest_path chain_graph ''c1'' ''c3'' = Inl (AttributeError ''coroutine'' ''single'') \<and>
   find_learning_path chain_graph ''c1'' ''c3'' = Inl (AttributeError ''coroutine'' ''single'') \<and>
   (\<forall>tx from_id to_id.
      find_shortest_path tx from_id to_id = Inl (AttributeError ''coroutine'' ''single''))"
  by (simp add: prerequisite_def chain_graph_def find_shortest_path_def find_learning_path_def
      coroutine_single_def)

section \<open>Structure Recognizer: lines before the first section\<close>





lemma map_last_Nil [simp]: "map_last f [] = []"
  by (simp add: map_last_def)

lemma map_last_snoc [simp]: "map_last f (xs @ [x]) = xs @ [f x]"
  by (simp add: map_last_def)

lemma map_last_single [simp]: "map_last f [x] = [f x]"
  by (simp add: map_last_def)



lemma map_last_eq_Nil [simp]: "(map_last f xs = []) = (xs = [])"
  by (simp add: map_last_def)



lemma in_section_save [simp]: "in_section (save_accumulated uuid st) = in_section st"
  by (simp add: save_accumulated_def case_prod_unfold Let_def)









end
